theory Spec2Isabelle
  imports Main "HOL-Library.Sublist" "HOL-Library.AList"
begin

section \<open>Hybrid commands: the adapter between prefix commands and application commands\<close>

text \<open>
  This theory embeds \<^verbatim>\<open>discord/ext/commands/hybrid.py\<close>. User callbacks, checks and the
  host framework's collaborators are black boxes of the source; they are parameters of the
  model: a call takes the world state \<open>'s\<close> and returns either the raised exception
  (\<open>Inl\<close>) or the returned value (\<open>Inr\<close>), together with the new world state.
\<close>

subsection \<open>Exceptions\<close>

text \<open>
  Modelled from the spec: the error classes are imported by \<^verbatim>\<open>hybrid.py\<close> from
  \<^verbatim>\<open>discord.app_commands\<close> and \<^verbatim>\<open>.errors\<close>, which are not among the sources. The
  spec's taxonomy (section 7) gives a signature-mismatch error and a transformer error inside
  the structured-system (app-command) errors, and a unified hybrid error and a conversion
  error inside the command-level errors; the two families are disjoint. A value of this type
  is an instance of Python's \<^verbatim>\<open>Exception\<close>. The option carried by an error is its
  \<^verbatim>\<open>__cause__\<close>.
\<close>

datatype exn =
    CommandSignatureMismatch
  | TransformerError "exn option"
  | AppCommandError string
  | HybridCommandError exn "exn option"
  | ConversionError nat exn "exn option"
  | CommandError string
  | CommandRegistrationError string bool
  | TypeError string
  | ValueError string
  | KeyError string
  | Exception string

text \<open>\<^verbatim>\<open>isinstance(e, app_commands.AppCommandError)\<close>\<close>

fun is_AppCommandError :: "exn \<Rightarrow> bool" where
  "is_AppCommandError CommandSignatureMismatch = True"
| "is_AppCommandError (TransformerError c) = True"
| "is_AppCommandError (AppCommandError t) = True"
| "is_AppCommandError e = False"

text \<open>\<^verbatim>\<open>isinstance(e, CommandError)\<close>\<close>

fun is_CommandError :: "exn \<Rightarrow> bool" where
  "is_CommandError (HybridCommandError orig c) = True"
| "is_CommandError (ConversionError conv orig c) = True"
| "is_CommandError (CommandError t) = True"
| "is_CommandError e = False"

text \<open>The \<^verbatim>\<open>__cause__\<close> attribute.\<close>

fun cause :: "exn \<Rightarrow> exn option" where
  "cause (TransformerError c) = c"
| "cause (HybridCommandError orig c) = c"
| "cause (ConversionError conv orig c) = c"
| "cause e = None"

subsection \<open>Permission checks on the structured path\<close>

text \<open>
  A check is a callable of the user or of the bot: it returns a truth value or raises.
  The places where \<^verbatim>\<open>_check_can_run\<close> calls one are named, and a call appends the place
  and what the check did there to a log, which is how the order of the calls is observed.
\<close>

type_synonym 's check = "'s \<Rightarrow> (exn + bool) \<times> 's"

datatype check_point =
    BotCheckOnce
  | BotCheck
  | ParentInteractionCheck
  | BindingInteractionCheck
  | CogCheck
  | LocalInteractionCheck nat
  | LocalCommandCheck nat

type_synonym check_log = "(check_point \<times> (exn + bool)) list"

text \<open>\<^verbatim>\<open>interaction.client\<close>: \<^verbatim>\<open>bot.can_run(ctx, call_once=True)\<close> and \<^verbatim>\<open>bot.can_run(ctx)\<close>.\<close>

record 's bot =
  can_run_once :: "'s check"
  can_run_always :: "'s check"

text \<open>\<^verbatim>\<open>self.parent\<close>: an application command group, with its identity.\<close>

record 's parent_group =
  parent_ref :: nat
  parent_interaction_check :: "'s check"

text \<open>
  \<^verbatim>\<open>self.binding\<close>: its identity, its \<^verbatim>\<open>interaction_check\<close> attribute (\<open>None\<close> when
  reading it raises \<^verbatim>\<open>AttributeError\<close>) and \<^verbatim>\<open>Cog._get_overridden_method(cog_check)\<close>
  (\<open>None\<close> when the cog does not override it).
\<close>

record 's binding_obj =
  binding_ref :: nat
  interaction_check :: "'s check option"
  overridden_cog_check :: "'s check option"

text \<open>The fields of a \<^verbatim>\<open>HybridAppCommand\<close> that \<^verbatim>\<open>_check_can_run\<close> reads.\<close>

record 's hybrid_app_command =
  parent :: "'s parent_group option"
  binding :: "'s binding_obj option"
  checks :: "'s check list"
  wrapped_checks :: "'s check list"

definition call :: "check_point \<Rightarrow> 's check \<Rightarrow> 's \<times> check_log \<Rightarrow> (exn + bool) \<times> ('s \<times> check_log)" where
  "call p c st = (case c (fst st) of (r, s') \<Rightarrow> (r, (s', snd st @ [(p, r)])))"

text \<open>\<^verbatim>\<open>if not await c: return False\<close>, followed by the rest \<open>k\<close> of the body.\<close>

definition guard :: "('t \<Rightarrow> (exn + bool) \<times> 't) \<Rightarrow> ('t \<Rightarrow> (exn + bool) \<times> 't) \<Rightarrow> 't \<Rightarrow> (exn + bool) \<times> 't" where
  "guard c k st =
     (case c st of
        (Inl e, st') \<Rightarrow> (Inl e, st')
      | (Inr b, st') \<Rightarrow> if b then k st' else (Inr False, st'))"

text \<open>
  \<^verbatim>\<open>discord.utils.async_all\<close> over a generator: the elements are produced and awaited one
  by one, and the first falsy one ends the loop.
\<close>

fun async_all :: "('t \<Rightarrow> (exn + bool) \<times> 't) list \<Rightarrow> 't \<Rightarrow> (exn + bool) \<times> 't" where
  "async_all [] st = (Inr True, st)"
| "async_all (c # cs) st =
     (case c st of
        (Inl e, st') \<Rightarrow> (Inl e, st')
      | (Inr b, st') \<Rightarrow> if b then async_all cs st' else (Inr False, st'))"

text \<open>
  \<^verbatim>\<open>self.parent is not None and self.parent is not self.binding\<close>: the parent whose
  interaction check is due, if any.
\<close>

definition parent_to_check :: "'s hybrid_app_command \<Rightarrow> 's parent_group option" where
  "parent_to_check self =
     (case parent self of
        None \<Rightarrow> None
      | Some p \<Rightarrow>
          (case binding self of
             None \<Rightarrow> Some p
           | Some b \<Rightarrow> if parent_ref p \<noteq> binding_ref b then Some p else None))"

definition labelled :: "(nat \<Rightarrow> check_point) \<Rightarrow> 's check list \<Rightarrow> ('s \<times> check_log \<Rightarrow> (exn + bool) \<times> ('s \<times> check_log)) list" where
  "labelled lbl cs = map (\<lambda>(i, c). call (lbl i) c) (enumerate 0 cs)"

definition check_can_run :: "'s bot \<Rightarrow> 's hybrid_app_command \<Rightarrow> 's \<times> check_log \<Rightarrow> (exn + bool) \<times> ('s \<times> check_log)" where
  "check_can_run bt self =
     guard (call BotCheckOnce (can_run_once bt))
    (guard (call BotCheck (can_run_always bt))
    (guard (\<lambda>st. case parent_to_check self of
                    None \<Rightarrow> (Inr True, st)
                  | Some p \<Rightarrow> call ParentInteractionCheck (parent_interaction_check p) st)
    (guard (\<lambda>st. case binding self of
                    None \<Rightarrow> (Inr True, st)
                  | Some b \<Rightarrow>
                      guard (\<lambda>st. case interaction_check b of
                                      None \<Rightarrow> (Inr True, st)
                                    | Some c \<Rightarrow> call BindingInteractionCheck c st)
                     (guard (\<lambda>st. case overridden_cog_check b of
                                      None \<Rightarrow> (Inr True, st)
                                    | Some c \<Rightarrow> call CogCheck c st)
                     (\<lambda>st. (Inr True, st))) st)
    (guard (\<lambda>st. if checks self \<noteq> [] then async_all (labelled LocalInteractionCheck (checks self)) st
                  else (Inr True, st))
    (guard (\<lambda>st. if wrapped_checks self \<noteq> []
                  then async_all (labelled LocalCommandCheck (wrapped_checks self)) st
                  else (Inr True, st))
    (\<lambda>st. (Inr True, st)))))))"

text \<open>
  The order the specification fixes, as the list of the places that apply to a command:
  a place is left out exactly when its condition fails.
\<close>

definition check_order :: "'s hybrid_app_command \<Rightarrow> check_point list" where
  "check_order self =
     [BotCheckOnce, BotCheck]
     @ (case parent_to_check self of None \<Rightarrow> [] | Some p \<Rightarrow> [ParentInteractionCheck])
     @ (case binding self of
          None \<Rightarrow> []
        | Some b \<Rightarrow>
            (case interaction_check b of None \<Rightarrow> [] | Some c \<Rightarrow> [BindingInteractionCheck])
            @ (case overridden_cog_check b of None \<Rightarrow> [] | Some c \<Rightarrow> [CogCheck]))
     @ map LocalInteractionCheck [0..<length (checks self)]
     @ map LocalCommandCheck [0..<length (wrapped_checks self)]"

text \<open>The same chain with the checks themselves.\<close>

definition check_chain :: "'s bot \<Rightarrow> 's hybrid_app_command \<Rightarrow> (check_point \<times> 's check) list" where
  "check_chain bt self =
     [(BotCheckOnce, can_run_once bt), (BotCheck, can_run_always bt)]
     @ (case parent_to_check self of
          None \<Rightarrow> []
        | Some p \<Rightarrow> [(ParentInteractionCheck, parent_interaction_check p)])
     @ (case binding self of
          None \<Rightarrow> []
        | Some b \<Rightarrow>
            (case interaction_check b of None \<Rightarrow> [] | Some c \<Rightarrow> [(BindingInteractionCheck, c)])
            @ (case overridden_cog_check b of None \<Rightarrow> [] | Some c \<Rightarrow> [(CogCheck, c)]))
     @ map (\<lambda>(i, c). (LocalInteractionCheck i, c)) (enumerate 0 (checks self))
     @ map (\<lambda>(i, c). (LocalCommandCheck i, c)) (enumerate 0 (wrapped_checks self))"

text \<open>Running a chain in order, stopping at the first check that does not return true.\<close>

fun run_chain :: "(check_point \<times> 's check) list \<Rightarrow> 's \<times> check_log \<Rightarrow> (exn + bool) \<times> ('s \<times> check_log)" where
  "run_chain [] st = (Inr True, st)"
| "run_chain ((p, c) # pcs) st =
     (case call p c st of
        (Inl e, st') \<Rightarrow> (Inl e, st')
      | (Inr b, st') \<Rightarrow> if b then run_chain pcs st' else (Inr False, st'))"

text \<open>An invocation for the examples: the world state counts the checks that ran.\<close>

definition passing :: "nat check" where
  "passing s = (Inr True, Suc s)"

definition failing :: "nat check" where
  "failing s = (Inr False, Suc s)"

definition example_bot :: "nat bot" where
  "example_bot = \<lparr>can_run_once = passing, can_run_always = passing\<rparr>"

definition example_command :: "nat hybrid_app_command" where
  "example_command =
     \<lparr>parent = Some \<lparr>parent_ref = 1, parent_interaction_check = passing\<rparr>,
      binding = Some \<lparr>binding_ref = 2, interaction_check = Some failing,
                         overridden_cog_check = Some passing\<rparr>,
      checks = [passing], wrapped_checks = [passing, passing]\<rparr>"

subsection \<open>The unified entry point\<close>

text \<open>
  The collaborators of \<^verbatim>\<open>_invoke_with_namespace\<close>: \<^verbatim>\<open>bot.get_context(interaction)\<close>,
  \<^verbatim>\<open>self.wrapped.prepare(ctx)\<close>, \<^verbatim>\<open>self._do_call(ctx, ctx.kwargs)\<close> and
  \<^verbatim>\<open>self.wrapped.dispatch_error(ctx, exc)\<close>.
\<close>

record ('s, 'ctx, 'v) collaborators =
  get_context :: "'s \<Rightarrow> (exn + 'ctx) \<times> 's"
  prepare :: "'ctx \<Rightarrow> 's \<Rightarrow> (exn + unit) \<times> 's"
  do_call :: "'ctx \<Rightarrow> 's \<Rightarrow> (exn + 'v) \<times> 's"
  dispatch_error :: "'ctx \<Rightarrow> exn \<Rightarrow> 's \<Rightarrow> (exn + unit) \<times> 's"

text \<open>The body of the \<^verbatim>\<open>try\<close>: prepare, then call the callback.\<close>

definition try_invoke :: "('s, 'ctx, 'v) collaborators \<Rightarrow> 'ctx \<Rightarrow> 's \<Rightarrow> (exn + 'v) \<times> 's" where
  "try_invoke C ctx s =
     (case prepare C ctx s of
        (Inl e, s1) \<Rightarrow> (Inl e, s1)
      | (Inr u, s1) \<Rightarrow> do_call C ctx s1)"

text \<open>
  The \<^verbatim>\<open>except\<close> clauses, in the order of the source: \<open>Inl\<close> is an exception that leaves
  the function (the re-raised signature mismatch, or one no clause catches), \<open>Inr\<close> is the
  value of \<^verbatim>\<open>exc\<close> after the clauses.
\<close>

fun classify :: "exn \<Rightarrow> exn + exn" where
  "classify CommandSignatureMismatch = Inl CommandSignatureMismatch"
| "classify (TransformerError c) =
     (case c of
        None \<Rightarrow> Inr (HybridCommandError (TransformerError c) (Some (TransformerError c)))
      | Some e' \<Rightarrow>
          if is_CommandError e' then Inr e'
          else Inr (HybridCommandError (TransformerError c) (Some (TransformerError c))))"
| "classify e =
     (if is_AppCommandError e then Inr (HybridCommandError e (Some e))
      else if is_CommandError e then Inr e
      else Inl e)"

text \<open>
  \<^verbatim>\<open>await self.wrapped.dispatch_error(ctx, exc)\<close> as the last statement: the function then
  returns \<^verbatim>\<open>None\<close>.
\<close>

definition dispatched :: "('s, 'ctx, 'v) collaborators \<Rightarrow> 'ctx \<Rightarrow> exn \<Rightarrow> 's \<Rightarrow> (exn + 'v option) \<times> 's" where
  "dispatched C ctx exc s =
     (case dispatch_error C ctx exc s of
        (Inl e, s') \<Rightarrow> (Inl e, s')
      | (Inr u, s') \<Rightarrow> (Inr None, s'))"

definition invoke_with_namespace :: "('s, 'ctx, 'v) collaborators \<Rightarrow> 's \<Rightarrow> (exn + 'v option) \<times> 's" where
  "invoke_with_namespace C s =
     (case get_context C s of
        (Inl e, s0) \<Rightarrow> (Inl e, s0)
      | (Inr ctx, s0) \<Rightarrow>
          (case try_invoke C ctx s0 of
             (Inr v, s1) \<Rightarrow> (Inr (Some v), s1)
           | (Inl e, s1) \<Rightarrow>
               (case classify e of
                  Inl e' \<Rightarrow> (Inl e', s1)
                | Inr exc \<Rightarrow> dispatched C ctx exc s1)))"

text \<open>
  An invocation for the examples: the world state is the list of the errors the sink has
  received; \<open>prepare\<close> raises the given exception.
\<close>

definition failing_invocation :: "exn \<Rightarrow> (exn list, unit, nat) collaborators" where
  "failing_invocation e =
     \<lparr>get_context = (\<lambda>s. (Inr (), s)),
      prepare = (\<lambda>ctx s. (Inl e, s)),
      do_call = (\<lambda>ctx s. (Inr 0, s)),
      dispatch_error = (\<lambda>ctx exc s. (Inr (), s @ [exc]))\<rparr>"

subsection \<open>Converters as transformers\<close>

text \<open>
  A converter annotation, as the reflection of the source sees it: its identity,
  \<^verbatim>\<open>inspect.isclass\<close>, \<^verbatim>\<open>issubclass(converter, Converter)\<close> (asked of a class only),
  \<^verbatim>\<open>isinstance(converter, Converter)\<close>,
  \<^verbatim>\<open>hasattr(converter, '__discord_app_commands_transformer__')\<close>,
  \<^verbatim>\<open>inspect.ismethod(converter.convert)\<close>, the instantiation \<^verbatim>\<open>converter()\<close> and the
  \<^verbatim>\<open>convert\<close> coroutine.
\<close>

record ('s, 'ctx, 'v) converter =
  conv_ref :: nat
  is_class :: bool
  subclass_of_Converter :: bool
  instance_of_Converter :: bool
  has_transformer :: bool
  convert_is_method :: bool
  construct :: "'s \<Rightarrow> (exn + unit) \<times> 's"
  convert :: "'ctx \<Rightarrow> string \<Rightarrow> 's \<Rightarrow> (exn + 'v) \<times> 's"

definition is_converter :: "('s, 'ctx, 'v) converter \<Rightarrow> bool" where
  "is_converter c \<longleftrightarrow> (is_class c \<and> subclass_of_Converter c) \<or> instance_of_Converter c"

text \<open>A value returned by \<^verbatim>\<open>convert\<close> is returned; falling off the end returns \<^verbatim>\<open>None\<close>.\<close>

definition returning :: "(exn + 'v) \<times> 's \<Rightarrow> (exn + 'v option) \<times> 's" where
  "returning r = (case r of (Inl e, s') \<Rightarrow> (Inl e, s') | (Inr x, s') \<Rightarrow> (Inr (Some x), s'))"

text \<open>The \<^verbatim>\<open>transform\<close> classmethod that \<^verbatim>\<open>make_converter_transformer\<close> builds.\<close>

definition transform :: "('s, 'ctx, 'v) converter \<Rightarrow> 'ctx \<Rightarrow> string \<Rightarrow> 's \<Rightarrow> (exn + 'v option) \<times> 's" where
  "transform c ctx v s =
     (case (if is_class c \<and> subclass_of_Converter c then
              (if convert_is_method c then returning (convert c ctx v s)
               else (case construct c s of
                       (Inl e, s1) \<Rightarrow> (Inl e, s1)
                     | (Inr u, s1) \<Rightarrow> returning (convert c ctx v s1)))
            else if instance_of_Converter c then returning (convert c ctx v s)
            else (Inr None, s)) of
        (Inr r, s') \<Rightarrow> (Inr r, s')
      | (Inl e, s') \<Rightarrow>
          if is_CommandError e then (Inl e, s')
          else (Inl (ConversionError (conv_ref c) e (Some e)), s'))"

text \<open>
  Executing the original conversion helper, in the words of the specification: the
  converter's \<^verbatim>\<open>convert\<close>, on a fresh instance when the converter is a class whose
  \<^verbatim>\<open>convert\<close> is not bound to it.
\<close>

definition run_helper :: "('s, 'ctx, 'v) converter \<Rightarrow> 'ctx \<Rightarrow> string \<Rightarrow> 's \<Rightarrow> (exn + 'v) \<times> 's" where
  "run_helper c ctx v s =
     (if is_class c \<and> subclass_of_Converter c \<and> \<not> convert_is_method c then
        (case construct c s of
           (Inl e, s1) \<Rightarrow> (Inl e, s1)
         | (Inr u, s1) \<Rightarrow> convert c ctx v s1)
      else convert c ctx v s)"

text \<open>
  \<^verbatim>\<open>inspect.Parameter\<close>: \<^verbatim>\<open>replace(annotation=...)\<close> changes the annotation only. An
  annotation is either what the callback declares or the class synthesized for a converter.
\<close>

datatype 'c annotation = Declared string | ConverterTransformer 'c

record 'c inspect_parameter =
  param_name :: string
  param_default :: "string option"
  param_annotation :: "'c annotation"

text \<open>
  The loop of \<^verbatim>\<open>replace_parameters\<close> over \<^verbatim>\<open>parameters.items()\<close> (name and
  \<^verbatim>\<open>parameter.converter\<close>); \<^verbatim>\<open>params\<close> is the ordered dictionary of the signature, and
  \<^verbatim>\<open>params[name]\<close> raises \<^verbatim>\<open>KeyError\<close> for a name it does not hold.
\<close>

fun replace_loop ::
  "(string \<times> ('s, 'ctx, 'v) converter) list \<Rightarrow> (string \<times> ('s, 'ctx, 'v) converter inspect_parameter) list
     \<Rightarrow> exn + (string \<times> ('s, 'ctx, 'v) converter inspect_parameter) list" where
  "replace_loop [] params = Inr params"
| "replace_loop ((n, c) # rest) params =
     (if is_converter c \<and> \<not> has_transformer c then
        (case map_of params n of
           None \<Rightarrow> Inl (KeyError n)
         | Some p \<Rightarrow>
             replace_loop rest (AList.update n (p\<lparr>param_annotation := ConverterTransformer c\<rparr>) params))
      else replace_loop rest params)"

definition replace_parameters ::
  "(string \<times> ('s, 'ctx, 'v) converter) list \<Rightarrow> (string \<times> ('s, 'ctx, 'v) converter inspect_parameter) list
     \<Rightarrow> exn + ('s, 'ctx, 'v) converter inspect_parameter list" where
  "replace_parameters parameters signature_parameters =
     (case replace_loop parameters signature_parameters of
        Inl e \<Rightarrow> Inl e
      | Inr params \<Rightarrow> Inr (map snd params))"

text \<open>What the specification asks of one parameter of the callback.\<close>

definition replaced ::
  "(string \<times> ('s, 'ctx, 'v) converter) list \<Rightarrow> string \<times> ('s, 'ctx, 'v) converter inspect_parameter
     \<Rightarrow> ('s, 'ctx, 'v) converter inspect_parameter" where
  "replaced parameters np =
     (case map_of parameters (fst np) of
        None \<Rightarrow> snd np
      | Some c \<Rightarrow>
          if is_converter c \<and> \<not> has_transformer c
          then (snd np)\<lparr>param_annotation := ConverterTransformer c\<rparr>
          else snd np)"

text \<open>
  Converters for the examples: a \<^verbatim>\<open>Converter\<close> subclass whose \<^verbatim>\<open>convert\<close> is an
  ordinary method (the class is instantiated first; the world state counts the
  instantiations) and which accepts only the text \<open>42\<close>, and the plain class \<^verbatim>\<open>int\<close>.
\<close>

definition example_converter :: "(nat, unit, nat) converter" where
  "example_converter =
     \<lparr>conv_ref = 7, is_class = True, subclass_of_Converter = True,
      instance_of_Converter = False, has_transformer = False, convert_is_method = False,
      construct = (\<lambda>s. (Inr (), Suc s)),
      convert = (\<lambda>ctx v s. if v = ''42'' then (Inr 42, s) else (Inl (ValueError v), s))\<rparr>"

definition int_annotation :: "(nat, unit, nat) converter" where
  "int_annotation =
     \<lparr>conv_ref = 8, is_class = True, subclass_of_Converter = False,
      instance_of_Converter = False, has_transformer = False, convert_is_method = False,
      construct = (\<lambda>s. (Inr (), s)),
      convert = (\<lambda>ctx v s. (Inl (TypeError v), s))\<rparr>"

definition example_signature :: "(string \<times> (nat, unit, nat) converter inspect_parameter) list" where
  "example_signature =
     [(''ctx'', \<lparr>param_name = ''ctx'', param_default = None, param_annotation = Declared ''Context''\<rparr>),
      (''answer'', \<lparr>param_name = ''answer'', param_default = None, param_annotation = Declared ''Answer''\<rparr>),
      (''count'', \<lparr>param_name = ''count'', param_default = Some ''1'', param_annotation = Declared ''int''\<rparr>)]"

definition example_parameters :: "(string \<times> (nat, unit, nat) converter) list" where
  "example_parameters = [(''answer'', example_converter), (''count'', int_annotation)]"

subsection \<open>Wrappers and adapters\<close>

text \<open>
  Python objects are referred to by their identity, a number. A wrapper and its adapter
  refer to each other; the adapter is identified by the wrapper that owns it, so the
  adapter's parent is given as the wrapper whose adapter it is. The parent of a command is
  a hybrid group, or an object of another class, given with the text of its class.
\<close>

datatype parent_obj = HybridGroupObj nat | OtherObj nat string

text \<open>
  Modelled from the spec: \<^verbatim>\<open>Command.__init__\<close> and \<^verbatim>\<open>Group.__init__\<close> of
  \<^verbatim>\<open>.core\<close> are not among the sources. These are the attributes of a command that
  \<^verbatim>\<open>hybrid.py\<close> reads after the base constructor has run: \<^verbatim>\<open>name\<close>, \<^verbatim>\<open>aliases\<close>,
  \<^verbatim>\<open>qualified_name\<close>, \<^verbatim>\<open>description\<close>, \<^verbatim>\<open>short_doc\<close>, the cog (\<^verbatim>\<open>_cog\<close>) and
  \<^verbatim>\<open>parent\<close>.
\<close>

record base_command =
  ref :: nat
  name :: string
  aliases :: "string list"
  qualified_name :: string
  description :: string
  short_doc :: string
  cog :: "nat option"
  parent_of :: "parent_obj option"

text \<open>
  The adapter: an \<^verbatim>\<open>app_commands.Command\<close> (for a \<^verbatim>\<open>HybridAppCommand\<close>) or an
  \<^verbatim>\<open>app_commands.Group\<close>.
\<close>

record adapter =
  app_owner :: nat
  app_name :: string
  app_description :: string
  app_binding :: "nat option"
  app_parent :: "nat option"
  app_guild_ids :: "nat list option"

datatype hybrid_class = HybridCommandClass | HybridGroupClass

record wrapper = base_command +
  hybrid_class :: hybrid_class
  app_command :: adapter

text \<open>
  A \<^verbatim>\<open>HybridGroup\<close>: \<^verbatim>\<open>all_commands\<close> maps names and aliases to the children, and
  \<open>app_children\<close> is \<^verbatim>\<open>self.app_command._children\<close>.
\<close>

record hybrid_group = wrapper +
  all_commands :: "string \<rightharpoonup> wrapper"
  app_children :: "string \<rightharpoonup> adapter"

text \<open>An object passed to \<^verbatim>\<open>add_command\<close>: a hybrid wrapper or any other command.\<close>

datatype command_obj = Hybrid wrapper | Plain base_command

text \<open>The placeholder description, U+2026 in UTF-8.\<close>

definition placeholder :: string where
  "placeholder = [CHR 0xE2, CHR 0x80, CHR 0xA6]"

text \<open>Python's \<^verbatim>\<open>a or b\<close> on strings: the first one that is not empty.\<close>

definition str_or :: "string \<Rightarrow> string \<Rightarrow> string" where
  "str_or a b = (if a \<noteq> [] then a else b)"

text \<open>\<^verbatim>\<open>wrapped.description or wrapped.short_doc or '...'\<close>\<close>

definition mirrored_description :: "'a base_command_scheme \<Rightarrow> string" where
  "mirrored_description w = str_or (description w) (str_or (short_doc w) placeholder)"

text \<open>
  Modelled from the spec: the constructors of \<^verbatim>\<open>app_commands.Command\<close> and
  \<^verbatim>\<open>app_commands.Group\<close> are not among the sources. The spec has the adapter registered
  with the name, the description and the guild scoping it is given; the validation the host
  applies to them is the parameter \<open>refuses\<close>.
\<close>

definition host_init ::
  "(string \<Rightarrow> string \<Rightarrow> exn option) \<Rightarrow> nat \<Rightarrow> string \<Rightarrow> string \<Rightarrow> nat list option \<Rightarrow> exn + adapter" where
  "host_init refuses owner n d guild_ids =
     (case refuses n d of
        Some e \<Rightarrow> Inl e
      | None \<Rightarrow>
          Inr \<lparr>app_owner = owner, app_name = n, app_description = d, app_binding = None,
               app_parent = None, app_guild_ids = guild_ids\<rparr>)"

text \<open>
  \<^verbatim>\<open>HybridAppCommand.__init__\<close>: the parameters are replaced, the base constructor gets the
  wrapper's name and description, and the binding is the wrapper's cog.
\<close>

definition HybridAppCommand_init ::
  "(string \<Rightarrow> string \<Rightarrow> exn option) \<Rightarrow> 'a base_command_scheme
     \<Rightarrow> (string \<times> ('s, 'ctx, 'v) converter) list
     \<Rightarrow> (string \<times> ('s, 'ctx, 'v) converter inspect_parameter) list \<Rightarrow> exn + adapter" where
  "HybridAppCommand_init refuses wrapped parameters signature_parameters =
     (case replace_parameters parameters signature_parameters of
        Inl e \<Rightarrow> Inl e
      | Inr params \<Rightarrow>
          (case host_init refuses (ref wrapped) (name wrapped) (mirrored_description wrapped) None of
             Inl e \<Rightarrow> Inl e
           | Inr a \<Rightarrow> Inr (a\<lparr>app_binding := cog wrapped\<rparr>)))"

text \<open>\<^verbatim>\<open>HybridCommand.__init__\<close>, from the command the base constructor has set up.\<close>

definition HybridCommand_init ::
  "(string \<Rightarrow> string \<Rightarrow> exn option) \<Rightarrow> base_command
     \<Rightarrow> (string \<times> ('s, 'ctx, 'v) converter) list
     \<Rightarrow> (string \<times> ('s, 'ctx, 'v) converter inspect_parameter) list \<Rightarrow> exn + wrapper" where
  "HybridCommand_init refuses b parameters signature_parameters =
     (case HybridAppCommand_init refuses b parameters signature_parameters of
        Inl e \<Rightarrow> Inl e
      | Inr a \<Rightarrow>
          Inr (base_command.extend b
                 \<lparr>hybrid_class = HybridCommandClass, app_command = a\<rparr>))"

text \<open>The setter of the \<^verbatim>\<open>cog\<close> property.\<close>

definition set_cog :: "wrapper \<Rightarrow> nat option \<Rightarrow> wrapper" where
  "set_cog w v = w\<lparr>cog := v, app_command := (app_command w)\<lparr>app_binding := v\<rparr>\<rparr>"

text \<open>
  \<^verbatim>\<open>attrs.pop('guild_ids', None) or getattr(self.callback, ..., None)\<close>: an empty list
  is falsy.
\<close>

definition guild_ids_or :: "nat list option \<Rightarrow> nat list option \<Rightarrow> nat list option" where
  "guild_ids_or a b = (case a of None \<Rightarrow> b | Some ids \<Rightarrow> if ids \<noteq> [] then Some ids else b)"

text \<open>\<^verbatim>\<open>HybridGroup.__init__\<close>, from the group the base constructor has set up.\<close>

definition HybridGroup_init ::
  "(string \<Rightarrow> string \<Rightarrow> exn option) \<Rightarrow> base_command \<Rightarrow> nat list option \<Rightarrow> nat list option
     \<Rightarrow> exn + hybrid_group" where
  "HybridGroup_init refuses b guild_ids_attr default_guilds =
     (case (case parent_of b of
              None \<Rightarrow> Inr None
            | Some (HybridGroupObj r) \<Rightarrow> Inr (Some r)
            | Some (OtherObj r cls) \<Rightarrow>
                Inl (TypeError (''HybridGroup parent must be HybridGroup not '' @ cls))) of
        Inl e \<Rightarrow> Inl e
      | Inr parent_adapter \<Rightarrow>
          (case host_init refuses (ref b) (name b) (mirrored_description b)
                  (guild_ids_or guild_ids_attr default_guilds) of
             Inl e \<Rightarrow> Inl e
           | Inr a \<Rightarrow>
               Inr (base_command.extend b
                      \<lparr>hybrid_class = HybridGroupClass,
                       app_command = a\<lparr>app_parent := parent_adapter\<rparr>,
                       all_commands = Map.empty, app_children = Map.empty\<rparr>)))"

subsection \<open>Registration in a group\<close>

text \<open>
  Modelled from the spec: \<^verbatim>\<open>app_commands.Group.add_command\<close> and
  \<^verbatim>\<open>app_commands.Group.remove_command\<close> are not among the sources. The spec has the addition
  mirrored into the structured-group adapter and the removal tear the adapter down: adding
  stores the adapter under its name and makes the group its parent, unless the host refuses
  it (its own validation is the parameter \<open>refuses\<close>, and a refused addition changes
  nothing); removing deletes the name.
\<close>

definition app_add_command ::
  "((string \<rightharpoonup> adapter) \<Rightarrow> adapter \<Rightarrow> exn option) \<Rightarrow> nat \<Rightarrow> (string \<rightharpoonup> adapter) \<Rightarrow> adapter
     \<Rightarrow> exn + (string \<rightharpoonup> adapter) \<times> adapter" where
  "app_add_command refuses owner children a =
     (case refuses children a of
        Some e \<Rightarrow> Inl e
      | None \<Rightarrow>
          Inr (children(app_name a \<mapsto> a\<lparr>app_parent := Some owner\<rparr>), a\<lparr>app_parent := Some owner\<rparr>))"

definition app_remove_command :: "(string \<rightharpoonup> adapter) \<Rightarrow> string \<Rightarrow> (string \<rightharpoonup> adapter)" where
  "app_remove_command children n = children(n := None)"

text \<open>
  Modelled from the spec: \<^verbatim>\<open>GroupMixin.remove_command\<close> of \<^verbatim>\<open>.core\<close>, which
  \<^verbatim>\<open>super().remove_command(name)\<close> reaches, is not among the sources. The spec has the
  removal take the name's entry out of the mapping and yield the wrapper it held; when the
  name is the wrapper's own name rather than one of its aliases, the entries of its aliases
  that still point to it go as well, and an alias that points to another wrapper stays.
\<close>

definition drop_alias :: "wrapper \<Rightarrow> string \<Rightarrow> (string \<rightharpoonup> wrapper) \<Rightarrow> (string \<rightharpoonup> wrapper)" where
  "drop_alias command alias m =
     (case m alias of
        None \<Rightarrow> m
      | Some cmd \<Rightarrow> if ref cmd \<noteq> ref command then m else m(alias := None))"

definition base_remove_command ::
  "(string \<rightharpoonup> wrapper) \<Rightarrow> string \<Rightarrow> wrapper option \<times> (string \<rightharpoonup> wrapper)" where
  "base_remove_command m n =
     (case m n of
        None \<Rightarrow> (None, m)
      | Some command \<Rightarrow>
          if n \<in> set (aliases command) then (Some command, m(n := None))
          else (Some command, fold (drop_alias command) (aliases command) (m(n := None))))"

text \<open>\<^verbatim>\<open>HybridGroup.remove_command\<close>\<close>

definition remove_command :: "hybrid_group \<Rightarrow> string \<Rightarrow> wrapper option \<times> hybrid_group" where
  "remove_command self n =
     (case base_remove_command (all_commands self) n of
        (cmd, m) \<Rightarrow>
          (cmd, self\<lparr>all_commands := m, app_children := app_remove_command (app_children self) n\<rparr>))"

text \<open>
  \<^verbatim>\<open>{name!r}\<close> in a format string: Python's \<^verbatim>\<open>repr\<close> of a string, for a name
  that holds no quote and nothing to escape.
\<close>

definition repr_str :: "string \<Rightarrow> string" where
  "repr_str s = CHR 0x27 # s @ [CHR 0x27]"

text \<open>The loop of \<^verbatim>\<open>add_command\<close> over \<^verbatim>\<open>command.aliases\<close>.\<close>

fun add_aliases :: "hybrid_group \<Rightarrow> wrapper \<Rightarrow> string list \<Rightarrow> (exn + unit) \<times> hybrid_group" where
  "add_aliases self command [] = (Inr (), self)"
| "add_aliases self command (alias # rest) =
     (if all_commands self alias \<noteq> None
      then (Inl (CommandRegistrationError alias True), snd (remove_command self (name command)))
      else add_aliases (self\<lparr>all_commands := (all_commands self)(alias \<mapsto> command)\<rparr>) command rest)"

text \<open>
  \<^verbatim>\<open>HybridGroup.add_command\<close>. The group and the command are both changed in place, so
  both are returned, also when an exception is raised.
\<close>

definition add_command ::
  "((string \<rightharpoonup> adapter) \<Rightarrow> adapter \<Rightarrow> exn option) \<Rightarrow> hybrid_group \<Rightarrow> command_obj
     \<Rightarrow> (exn + unit) \<times> hybrid_group \<times> command_obj" where
  "add_command refuses self obj =
     (case obj of
        Plain c \<Rightarrow>
          (Inl (TypeError ''The command passed must be a subclass of HybridCommand or HybridGroup''),
           self, obj)
      | Hybrid command \<Rightarrow>
          if hybrid_class command = HybridGroupClass \<and> parent_of self \<noteq> None
          then (Inl (ValueError (repr_str (qualified_name command)
                        @ '' is too nested, groups can only be nested at most one level'')),
                self, obj)
          else
            (case app_add_command refuses (ref self) (app_children self) (app_command command) of
               Inl e \<Rightarrow> (Inl e, self, obj)
             | Inr (children, a) \<Rightarrow>
                 (let self1 = self\<lparr>app_children := children\<rparr>;
                      command1 = command\<lparr>app_command := a, parent_of := Some (HybridGroupObj (ref self))\<rparr>
                  in if all_commands self1 (name command1) \<noteq> None
                     then (Inl (CommandRegistrationError (name command1) False), self1, Hybrid command1)
                     else
                       (case add_aliases
                               (self1\<lparr>all_commands := (all_commands self1)(name command1 \<mapsto> command1)\<rparr>)
                               command1 (aliases command1) of
                          (r, self2) \<Rightarrow> (r, self2, Hybrid command1)))))"

text \<open>
  Objects for the examples: a host that validates nothing at construction and refuses a
  second child of the same name, a top-level group, and commands by identity, name and
  aliases.
\<close>

definition accepts :: "string \<Rightarrow> string \<Rightarrow> exn option" where
  "accepts n d = None"

definition refuses_duplicates :: "(string \<rightharpoonup> adapter) \<Rightarrow> adapter \<Rightarrow> exn option" where
  "refuses_duplicates children a =
     (case children (app_name a) of
        None \<Rightarrow> None
      | Some b \<Rightarrow> Some (AppCommandError ''CommandAlreadyRegistered''))"

definition example_base :: "nat \<Rightarrow> string \<Rightarrow> string list \<Rightarrow> base_command" where
  "example_base r n als =
     \<lparr>ref = r, name = n, aliases = als, qualified_name = n, description = [],
      short_doc = ''Moderation'', cog = None, parent_of = None\<rparr>"

definition example_wrapper :: "nat \<Rightarrow> string \<Rightarrow> string list \<Rightarrow> wrapper" where
  "example_wrapper r n als =
     base_command.extend (example_base r n als)
       \<lparr>hybrid_class = HybridCommandClass,
        app_command = \<lparr>app_owner = r, app_name = n, app_description = ''Moderation'',
                       app_binding = None, app_parent = None, app_guild_ids = None\<rparr>\<rparr>"

definition example_group :: hybrid_group where
  "example_group =
     base_command.extend (example_base 1 ''admin'' [])
       \<lparr>hybrid_class = HybridGroupClass,
        app_command = \<lparr>app_owner = 1, app_name = ''admin'', app_description = ''Moderation'',
                       app_binding = None, app_parent = None, app_guild_ids = None\<rparr>,
        all_commands = Map.empty, app_children = Map.empty\<rparr>"

text \<open>The group after the command \<open>ban\<close> with the alias \<open>kick\<close> has been added to it.\<close>

definition group_with_ban :: hybrid_group where
  "group_with_ban =
     fst (snd (add_command refuses_duplicates example_group
                 (Hybrid (example_wrapper 2 ''ban'' [''kick'']))))"

text \<open>
  The mirroring of name and description between a wrapper and its adapter, and the
  agreement of cog and binding.
\<close>

definition mirrors :: "'a wrapper_scheme \<Rightarrow> bool" where
  "mirrors w \<longleftrightarrow>
     app_name (app_command w) = name w \<and> app_description (app_command w) = mirrored_description w"

definition bound_together :: "'a wrapper_scheme \<Rightarrow> bool" where
  "bound_together w \<longleftrightarrow> app_binding (app_command w) = cog w"

text \<open>A group that has a parent, and a group to add to it.\<close>

definition nested_group :: hybrid_group where
  "nested_group = example_group\<lparr>ref := 4, name := ''users'', parent_of := Some (HybridGroupObj 1)\<rparr>"

definition example_subgroup :: wrapper where
  "example_subgroup = (example_wrapper 5 ''roles'' [])\<lparr>hybrid_class := HybridGroupClass\<rparr>"

text \<open>
  An invocation for the examples whose context cannot be built: \<open>get_context\<close> raises the
  given exception.
\<close>

definition failing_context :: "exn \<Rightarrow> (exn list, unit, nat) collaborators" where
  "failing_context e =
     \<lparr>get_context = (\<lambda>s. (Inl e, s)),
      prepare = (\<lambda>ctx s. (Inr (), s)),
      do_call = (\<lambda>ctx s. (Inr 0, s)),
      dispatch_error = (\<lambda>ctx exc s. (Inr (), s @ [exc]))\<rparr>"

text \<open>
  A registered pair: the child is held under its own name in the group's command mapping,
  and its adapter, which carries the same name, is held under that name in the
  structured-side group.
\<close>

definition registered :: "hybrid_group \<Rightarrow> wrapper \<Rightarrow> bool" where
  "registered self c \<longleftrightarrow>
     all_commands self (name c) = Some c
     \<and> app_children self (name c) = Some (app_command c)
     \<and> app_name (app_command c) = name c"

text \<open>The children of the structured-side group are held under their own names.\<close>

definition keyed_by_name :: "hybrid_group \<Rightarrow> bool" where
  "keyed_by_name self \<longleftrightarrow> (\<forall>k a. app_children self k = Some a \<longrightarrow> app_name a = k)"


text \<open>The command \<open>ban\<close> as the group holds it: its parent is the group.\<close>

definition registered_ban :: wrapper where
  "registered_ban =
     (example_wrapper 2 ''ban'' [''kick''])
       \<lparr>app_command := (app_command (example_wrapper 2 ''ban'' [''kick'']))\<lparr>app_parent := Some 1\<rparr>,
        parent_of := Some (HybridGroupObj 1)\<rparr>"

section \<open>Properties\<close>

subsection \<open>The check chain is the ordered chain\<close>

lemma guard_skip: "guard (\<lambda>st. (Inr True, st)) k = k"
  by (rule ext) (simp add: guard_def)

lemma guard_return: "guard a (\<lambda>st. (Inr True, st)) = a"
  by (rule ext) (simp add: guard_def split: prod.splits sum.splits)

lemma guard_assoc: "guard (guard a b) k = guard a (guard b k)"
  by (rule ext) (simp add: guard_def split: prod.splits sum.splits)

lemma run_chain_Nil: "run_chain [] = (\<lambda>st. (Inr True, st))"
  by (rule ext) simp

lemma run_chain_Cons: "run_chain ((p, c) # pcs) = guard (call p c) (run_chain pcs)"
  by (rule ext) (simp add: guard_def split: prod.splits sum.splits)

lemma run_chain_append: "run_chain (xs @ ys) = guard (run_chain xs) (run_chain ys)"
proof (induction xs)
  case Nil
  show ?case by (simp add: run_chain_Nil guard_skip)
next
  case (Cons x xs)
  obtain p c where x: "x = (p, c)" by (cases x)
  show ?case
    unfolding x append_Cons run_chain_Cons Cons.IH guard_assoc ..
qed

lemma async_all_run_chain:
  "async_all (map (\<lambda>(i, c). call (lbl i) c) (enumerate n cs)) st
     = run_chain (map (\<lambda>(i, c). (lbl i, c)) (enumerate n cs)) st"
  by (induction cs arbitrary: n st) (simp_all split: prod.splits sum.splits)

lemma local_checks_run_chain:
  "(\<lambda>st. if cs \<noteq> [] then async_all (labelled lbl cs) st else (Inr True, st))
     = run_chain (map (\<lambda>(i, c). (lbl i, c)) (enumerate 0 cs))"
  by (rule ext) (simp add: labelled_def async_all_run_chain)

lemma parent_step_run_chain:
  "(\<lambda>st. case po of None \<Rightarrow> (Inr True, st)
        | Some p \<Rightarrow> call ParentInteractionCheck (parent_interaction_check p) st)
     = run_chain (case po of None \<Rightarrow> []
        | Some p \<Rightarrow> [(ParentInteractionCheck, parent_interaction_check p)])"
  by (cases po) (simp_all add: run_chain_Nil run_chain_Cons guard_return)

lemma optional_step_run_chain:
  "(\<lambda>st. case co of None \<Rightarrow> (Inr True, st) | Some c \<Rightarrow> call p c st)
     = run_chain (case co of None \<Rightarrow> [] | Some c \<Rightarrow> [(p, c)])"
  by (cases co) (simp_all add: run_chain_Nil run_chain_Cons guard_return)

lemma binding_step_run_chain:
  "(\<lambda>st. case bo of
            None \<Rightarrow> (Inr True, st)
          | Some b \<Rightarrow>
              guard (\<lambda>st. case interaction_check b of
                              None \<Rightarrow> (Inr True, st)
                            | Some c \<Rightarrow> call BindingInteractionCheck c st)
             (guard (\<lambda>st. case overridden_cog_check b of
                              None \<Rightarrow> (Inr True, st)
                            | Some c \<Rightarrow> call CogCheck c st)
             (\<lambda>st. (Inr True, st))) st)
     = run_chain (case bo of
          None \<Rightarrow> []
        | Some b \<Rightarrow>
            (case interaction_check b of None \<Rightarrow> [] | Some c \<Rightarrow> [(BindingInteractionCheck, c)])
            @ (case overridden_cog_check b of None \<Rightarrow> [] | Some c \<Rightarrow> [(CogCheck, c)]))"
proof (cases bo)
  case None
  then show ?thesis by (simp add: run_chain_Nil)
next
  case (Some b)
  then show ?thesis
    by (simp add: optional_step_run_chain run_chain_append guard_return)
qed

lemma check_can_run_refines:
  "check_can_run bt self = run_chain (check_chain bt self)"
  unfolding check_can_run_def check_chain_def binding_step_run_chain
  by (simp only: local_checks_run_chain parent_step_run_chain
      run_chain_append run_chain_Cons run_chain_Nil guard_return guard_assoc append_Cons append_Nil)

lemma map_fst_labelled:
  "map fst (map (\<lambda>(i, c). (lbl i, c)) (enumerate n cs)) = map lbl [n..<n + length cs]"
proof -
  have "map fst (map (\<lambda>(i, c). (lbl i, c)) xs) = map lbl (map fst xs)" for xs :: "(nat \<times> 'c) list"
    by (induction xs) auto
  then have "map fst (map (\<lambda>(i, c). (lbl i, c)) (enumerate n cs)) = map lbl (map fst (enumerate n cs))" .
  also have "map fst (enumerate n cs) = [n..<n + length cs]" by (rule map_fst_enumerate)
  finally show ?thesis .
qed

lemma map_fst_check_chain: "map fst (check_chain bt self) = check_order self"
  unfolding check_chain_def check_order_def
  by (simp add: map_fst_labelled del: map_map split: option.splits)

lemma run_chain_log:
  "run_chain pcs (s, t0) = (r, (s', t)) \<Longrightarrow>
     \<exists>t'. t = t0 @ t' \<and> prefix (map fst t') (map fst pcs)
        \<and> (\<forall>e\<in>set (butlast t'). snd e = Inr True)
        \<and> (r = Inr True \<longleftrightarrow> map fst t' = map fst pcs \<and> (\<forall>e\<in>set t'. snd e = Inr True))
        \<and> (r \<noteq> Inr True \<longrightarrow> t' \<noteq> [] \<and> snd (last t') = r)"
proof (induction pcs arbitrary: s t0)
  case Nil
  then show ?case by simp
next
  case (Cons pc pcs)
  obtain p c where pc: "pc = (p, c)" by (cases pc)
  obtain r1 s1 where c: "c s = (r1, s1)" by (cases "c s")
  show ?case
  proof (cases "r1 = Inr True")
    case True
    with Cons.prems pc c have "run_chain pcs (s1, t0 @ [(p, r1)]) = (r, (s', t))"
      by (simp add: call_def)
    from Cons.IH [OF this] obtain t' where t':
      "t = (t0 @ [(p, r1)]) @ t'" "prefix (map fst t') (map fst pcs)"
      "\<forall>e\<in>set (butlast t'). snd e = Inr True"
      "r = Inr True \<longleftrightarrow> map fst t' = map fst pcs \<and> (\<forall>e\<in>set t'. snd e = Inr True)"
      "r \<noteq> Inr True \<longrightarrow> t' \<noteq> [] \<and> snd (last t') = r"
      by blast
    show ?thesis
    proof (intro exI [of _ "(p, r1) # t'"] conjI)
      show "t = t0 @ (p, r1) # t'" using t'(1) by simp
      show "prefix (map fst ((p, r1) # t')) (map fst (pc # pcs))" using t'(2) pc by simp
      show "\<forall>e\<in>set (butlast ((p, r1) # t')). snd e = Inr True" using t'(3) True by simp
      show "r = Inr True \<longleftrightarrow> map fst ((p, r1) # t') = map fst (pc # pcs) \<and> (\<forall>e\<in>set ((p, r1) # t'). snd e = Inr True)"
        using t'(4) True pc by simp
      show "r \<noteq> Inr True \<longrightarrow> (p, r1) # t' \<noteq> [] \<and> snd (last ((p, r1) # t')) = r"
        using t'(5) by simp
    qed
  next
    case False
    with Cons.prems pc c have res: "r = r1" "s' = s1" "t = t0 @ [(p, r1)]"
      by (auto simp: call_def split: sum.splits if_splits)
    show ?thesis
      by (rule exI [of _ "[(p, r1)]"]) (use res False pc in simp)
  qed
qed

lemma run_chain_entries:
  "run_chain pcs (s, t0) = (r, (s', t)) \<Longrightarrow>
     \<exists>t' ss. t = t0 @ t' \<and> length ss = Suc (length t') \<and> length t' \<le> length pcs
        \<and> ss ! 0 = s \<and> ss ! length t' = s'
        \<and> (\<forall>i<length t'. fst (t' ! i) = fst (pcs ! i)
               \<and> snd (pcs ! i) (ss ! i) = (snd (t' ! i), ss ! Suc i))"
proof (induction pcs arbitrary: s t0)
  case Nil
  then show ?case by (auto intro!: exI [of _ "[]"] exI [of _ "[s]"])
next
  case (Cons pc pcs)
  obtain p c where pc: "pc = (p, c)" by (cases pc)
  obtain r1 s1 where c: "c s = (r1, s1)" by (cases "c s")
  show ?case
  proof (cases "r1 = Inr True")
    case True
    with Cons.prems pc c have "run_chain pcs (s1, t0 @ [(p, r1)]) = (r, (s', t))"
      by (simp add: call_def)
    from Cons.IH [OF this] obtain t' ss where t':
      "t = (t0 @ [(p, r1)]) @ t'" "length ss = Suc (length t')" "length t' \<le> length pcs"
      "ss ! 0 = s1" "ss ! length t' = s'"
      "\<forall>i<length t'. fst (t' ! i) = fst (pcs ! i)
          \<and> snd (pcs ! i) (ss ! i) = (snd (t' ! i), ss ! Suc i)"
      by blast
    show ?thesis
    proof (intro exI [of _ "(p, r1) # t'"] exI [of _ "s # ss"] conjI allI impI)
      show "t = t0 @ (p, r1) # t'" using t'(1) by simp
      show "length (s # ss) = Suc (length ((p, r1) # t'))" using t'(2) by simp
      show "length ((p, r1) # t') \<le> length (pc # pcs)" using t'(3) by simp
      show "(s # ss) ! 0 = s" by simp
      show "(s # ss) ! length ((p, r1) # t') = s'" using t'(5) by simp
    next
      fix i assume i: "i < length ((p, r1) # t')"
      show "fst (((p, r1) # t') ! i) = fst ((pc # pcs) ! i)"
        using i t'(6) pc by (cases i) auto
      show "snd ((pc # pcs) ! i) ((s # ss) ! i) = (snd (((p, r1) # t') ! i), (s # ss) ! Suc i)"
        using i t'(6) t'(4) pc c by (cases i) auto
    qed
  next
    case False
    with Cons.prems pc c have res: "r = r1" "s' = s1" "t = t0 @ [(p, r1)]"
      by (auto simp: call_def split: sum.splits if_splits)
    show ?thesis
      by (intro exI [of _ "[(p, r1)]"] exI [of _ "[s, s1]"]) (use res pc c in simp)
  qed
qed

text \<open>
  C1. On the structured path \<open>check_can_run\<close> is the run, in order and stopping at the
  first check that does not return true, of \<open>check_chain\<close>: the bot's one-time check, the
  bot's check, the parent's interaction check when the parent exists and is not the binding,
  the binding's interaction check when present, the overridden cog check when present, the
  adapter's own checks, the wrapper's own checks. Entry \<open>i\<close> of the log is what check \<open>i\<close>
  of that chain did in the state its predecessors left. The places called are an initial
  segment of \<open>check_order\<close>; every call but the last returned true, so nothing runs after
  the first check that does not pass; the result is true exactly when every applicable check
  ran and returned true; otherwise the result is what the last check called did (false when
  it returned false).
\<close>

theorem check_can_run_ordered:
  "check_can_run bt self (s, []) = (r, (s', t)) \<Longrightarrow>
     run_chain (check_chain bt self) (s, []) = (r, (s', t))
     \<and> map fst (check_chain bt self) = check_order self
     \<and> (\<exists>ss. length ss = Suc (length t) \<and> ss ! 0 = s \<and> ss ! length t = s'
          \<and> (\<forall>i<length t. fst (t ! i) = fst (check_chain bt self ! i)
                 \<and> snd (check_chain bt self ! i) (ss ! i) = (snd (t ! i), ss ! Suc i)))
     \<and> prefix (map fst t) (check_order self)
     \<and> (\<forall>e\<in>set (butlast t). snd e = Inr True)
     \<and> (r = Inr True \<longleftrightarrow> map fst t = check_order self \<and> (\<forall>e\<in>set t. snd e = Inr True))
     \<and> (r \<noteq> Inr True \<longrightarrow> t \<noteq> [] \<and> snd (last t) = r)"
proof -
  assume "check_can_run bt self (s, []) = (r, (s', t))"
  then have run: "run_chain (check_chain bt self) (s, []) = (r, (s', t))"
    by (simp only: check_can_run_refines)
  from run_chain_entries [OF run]
  have entries: "\<exists>ss. length ss = Suc (length t) \<and> ss ! 0 = s \<and> ss ! length t = s'
          \<and> (\<forall>i<length t. fst (t ! i) = fst (check_chain bt self ! i)
                 \<and> snd (check_chain bt self ! i) (ss ! i) = (snd (t ! i), ss ! Suc i))"
    by auto
  from run_chain_log [OF run] run entries show ?thesis
    by (simp add: map_fst_check_chain)
qed

lemma example_command_run:
  "check_can_run example_bot example_command (0, []) =
     (Inr False, (4, [(BotCheckOnce, Inr True), (BotCheck, Inr True),
                      (ParentInteractionCheck, Inr True), (BindingInteractionCheck, Inr False)]))"
  by (simp add: check_can_run_def guard_def call_def parent_to_check_def example_bot_def
      example_command_def passing_def failing_def)

theorem check_can_run_ordered_witness:
  "check_can_run example_bot example_command (0, []) =
     (Inr False, (4, [(BotCheckOnce, Inr True), (BotCheck, Inr True),
                      (ParentInteractionCheck, Inr True), (BindingInteractionCheck, Inr False)]))
   \<and> run_chain (check_chain example_bot example_command) (0, []) =
     (Inr False, (4, [(BotCheckOnce, Inr True), (BotCheck, Inr True),
                      (ParentInteractionCheck, Inr True), (BindingInteractionCheck, Inr False)]))
   \<and> prefix [BotCheckOnce, BotCheck, ParentInteractionCheck, BindingInteractionCheck]
        (check_order example_command)
   \<and> check_order example_command =
        [BotCheckOnce, BotCheck, ParentInteractionCheck, BindingInteractionCheck, CogCheck,
         LocalInteractionCheck 0, LocalCommandCheck 0, LocalCommandCheck 1]"
  using check_can_run_ordered [OF example_command_run] example_command_run
  by (simp add: check_order_def parent_to_check_def example_command_def upt_rec)

subsection \<open>Errors of the unified entry point\<close>

lemma classify_app_other:
  assumes "is_AppCommandError e" "e \<noteq> CommandSignatureMismatch"
    and "\<not> (\<exists>c. e = TransformerError (Some c) \<and> is_CommandError c)"
  shows "classify e = Inr (HybridCommandError e (Some e))"
  using assms by (cases e) (auto split: option.splits)

lemma classify_command: "is_CommandError e \<Longrightarrow> classify e = Inr e"
  by (cases e) auto

lemma classify_foreign:
  "\<not> is_AppCommandError e \<Longrightarrow> \<not> is_CommandError e \<Longrightarrow> classify e = Inl e"
  by (cases e) auto

lemma classify_dispatches_command_error: "classify e = Inr exc \<Longrightarrow> is_CommandError exc"
  by (cases e) (auto split: option.splits if_splits)

lemma invoke_failure:
  assumes "get_context C s = (Inr ctx, s0)" and "try_invoke C ctx s0 = (Inl e, s1)"
  shows "invoke_with_namespace C s =
     (case classify e of Inl e' \<Rightarrow> (Inl e', s1) | Inr exc \<Rightarrow> dispatched C ctx exc s1)"
  using assms by (simp add: invoke_with_namespace_def)

text \<open>
  C2, as stated, fails: the context is built before the \<^verbatim>\<open>try\<close> statement, so an
  exception raised there meets no \<^verbatim>\<open>except\<close> clause. Here \<open>get_context\<close> raises an
  app-command error that is not the signature mismatch, and then a transformer error whose
  cause is a command-level error: the first is not wrapped into a hybrid command error, the
  second is not replaced by its cause, both reach the caller as they are and the sink has
  received nothing.
\<close>

theorem invoke_context_error_unclassified:
  "invoke_with_namespace (failing_context (AppCommandError ''no context'')) []
     = (Inl (AppCommandError ''no context''), [])
   \<and> is_AppCommandError (AppCommandError ''no context'')
   \<and> AppCommandError ''no context'' \<noteq> CommandSignatureMismatch
   \<and> invoke_with_namespace (failing_context (TransformerError (Some (CommandError ''bad argument'')))) []
     = (Inl (TransformerError (Some (CommandError ''bad argument''))), [])
   \<and> is_CommandError (CommandError ''bad argument'')"
  by (simp add: invoke_with_namespace_def failing_context_def)

text \<open>
  C2, amended. An exception raised while the context is built reaches the caller unchanged.
  When preparing or calling the callback raises \<open>e\<close> on the structured path: a signature
  mismatch is re-raised unchanged; a transformer error whose cause is a command-level error
  is replaced by that cause; any other app-command error is wrapped into a hybrid command
  error whose cause is the original error; a command-level error is kept unchanged. In the
  last three cases the error named is the one handed to the dispatch.
\<close>

theorem invoke_classifies:
  "(get_context C s = (Inl e0, s0) \<longrightarrow> invoke_with_namespace C s = (Inl e0, s0))
   \<and> (get_context C s = (Inr ctx, s0) \<and> try_invoke C ctx s0 = (Inl e, s1) \<longrightarrow>
        (e = CommandSignatureMismatch \<longrightarrow>
            invoke_with_namespace C s = (Inl CommandSignatureMismatch, s1))
      \<and> (e = TransformerError (Some c) \<and> is_CommandError c \<longrightarrow>
            invoke_with_namespace C s = dispatched C ctx c s1)
      \<and> (is_AppCommandError e \<and> e \<noteq> CommandSignatureMismatch
            \<and> \<not> (\<exists>c'. e = TransformerError (Some c') \<and> is_CommandError c') \<longrightarrow>
            invoke_with_namespace C s = dispatched C ctx (HybridCommandError e (Some e)) s1
            \<and> cause (HybridCommandError e (Some e)) = Some e)
      \<and> (is_CommandError e \<longrightarrow> invoke_with_namespace C s = dispatched C ctx e s1))"
proof (intro conjI impI)
  assume "get_context C s = (Inl e0, s0)"
  then show "invoke_with_namespace C s = (Inl e0, s0)"
    by (simp add: invoke_with_namespace_def)
next
  assume a: "get_context C s = (Inr ctx, s0) \<and> try_invoke C ctx s0 = (Inl e, s1)"
  note failure = invoke_failure [OF a [THEN conjunct1] a [THEN conjunct2]]
  {
    assume "e = CommandSignatureMismatch"
    then show "invoke_with_namespace C s = (Inl CommandSignatureMismatch, s1)"
      using failure by simp
  next
    assume "e = TransformerError (Some c) \<and> is_CommandError c"
    then show "invoke_with_namespace C s = dispatched C ctx c s1"
      using failure by simp
  next
    assume "is_AppCommandError e \<and> e \<noteq> CommandSignatureMismatch
      \<and> \<not> (\<exists>c'. e = TransformerError (Some c') \<and> is_CommandError c')"
    then have "classify e = Inr (HybridCommandError e (Some e))"
      by (simp add: classify_app_other)
    then show "invoke_with_namespace C s = dispatched C ctx (HybridCommandError e (Some e)) s1"
      using failure by simp
  next
    show "cause (HybridCommandError e (Some e)) = Some e" by simp
  next
    assume "is_CommandError e"
    then show "invoke_with_namespace C s = dispatched C ctx e s1"
      using failure by (simp add: classify_command)
  }
qed

lemma failing_invocation_context: "get_context (failing_invocation e) [] = (Inr (), [])"
  by (simp add: failing_invocation_def)

lemma failing_invocation_raises: "try_invoke (failing_invocation e) () [] = (Inl e, [])"
  by (simp add: failing_invocation_def try_invoke_def)

lemma failing_invocation_both:
  "get_context (failing_invocation e) [] = (Inr (), [])
   \<and> try_invoke (failing_invocation e) () [] = (Inl e, [])"
  by (simp add: failing_invocation_context failing_invocation_raises)

lemma failing_context_raises: "get_context (failing_context e) [] = (Inl e, [])"
  by (simp add: failing_context_def)

theorem invoke_classifies_witness:
  "invoke_with_namespace (failing_invocation (TransformerError (Some (CommandError ''bad argument'')))) []
     = (Inr None, [CommandError ''bad argument''])
   \<and> invoke_with_namespace (failing_invocation (AppCommandError ''no permission'')) []
     = (Inr None, [HybridCommandError (AppCommandError ''no permission'')
                     (Some (AppCommandError ''no permission''))])
   \<and> invoke_with_namespace (failing_invocation CommandSignatureMismatch) []
     = (Inl CommandSignatureMismatch, [])
   \<and> invoke_with_namespace (failing_context (ValueError ''no command data'')) []
     = (Inl (ValueError ''no command data''), [])"
proof (intro conjI)
  note classified =
    invoke_classifies [THEN conjunct2, THEN mp, OF failing_invocation_both]
  show "invoke_with_namespace
      (failing_invocation (TransformerError (Some (CommandError ''bad argument'')))) []
      = (Inr None, [CommandError ''bad argument''])"
    using classified [of "TransformerError (Some (CommandError ''bad argument''))"
        "CommandError ''bad argument''"]
    by (simp add: dispatched_def failing_invocation_def)
  show "invoke_with_namespace (failing_invocation (AppCommandError ''no permission'')) []
      = (Inr None, [HybridCommandError (AppCommandError ''no permission'')
                      (Some (AppCommandError ''no permission''))])"
    using classified [of "AppCommandError ''no permission''"]
    by (simp add: dispatched_def failing_invocation_def)
  show "invoke_with_namespace (failing_invocation CommandSignatureMismatch) []
      = (Inl CommandSignatureMismatch, [])"
    using classified [of CommandSignatureMismatch] by simp
  show "invoke_with_namespace (failing_context (ValueError ''no command data'')) []
      = (Inl (ValueError ''no command data''), [])"
    by (rule invoke_classifies [THEN conjunct1, THEN mp, OF failing_context_raises])
qed

text \<open>
  C4, as stated, fails: an exception that is neither an app-command error nor a command-level
  error matches no \<^verbatim>\<open>except\<close> clause. Here \<open>prepare\<close> raises such an exception; it is not
  the signature mismatch, yet it reaches the caller and the sink has received nothing.
\<close>

theorem invoke_foreign_exception_escapes:
  "invoke_with_namespace (failing_invocation (Exception ''boom'')) [] = (Inl (Exception ''boom''), [])
   \<and> Exception ''boom'' \<noteq> CommandSignatureMismatch"
  by (simp add: invoke_with_namespace_def failing_invocation_def try_invoke_def)

text \<open>
  C4, amended. When preparing or calling the callback raises \<open>e\<close>: if \<open>e\<close> is an app-command
  error other than the signature mismatch, or a command-level error, then a command-level
  error \<open>exc\<close> (the unified error the clauses computed) is handed to the wrapper's
  \<open>dispatch_error\<close> and the entry point does what the dispatch does; when the dispatch
  returns, the entry point returns \<^verbatim>\<open>None\<close> and raises nothing. The signature mismatch
  reaches the caller, and so does an exception of neither family.
\<close>

theorem invoke_unified_error_dispatched:
  assumes "get_context C s = (Inr ctx, s0)" and "try_invoke C ctx s0 = (Inl e, s1)"
  shows "(e \<noteq> CommandSignatureMismatch \<and> (is_AppCommandError e \<or> is_CommandError e) \<longrightarrow>
            (\<exists>exc. classify e = Inr exc \<and> is_CommandError exc
               \<and> invoke_with_namespace C s = dispatched C ctx exc s1
               \<and> (\<forall>s2. dispatch_error C ctx exc s1 = (Inr (), s2) \<longrightarrow>
                      invoke_with_namespace C s = (Inr None, s2))))
       \<and> (e = CommandSignatureMismatch \<longrightarrow> invoke_with_namespace C s = (Inl e, s1))
       \<and> (\<not> is_AppCommandError e \<and> \<not> is_CommandError e \<longrightarrow>
            invoke_with_namespace C s = (Inl e, s1))"
proof (intro conjI impI)
  assume a: "e \<noteq> CommandSignatureMismatch \<and> (is_AppCommandError e \<or> is_CommandError e)"
  then have "\<exists>exc. classify e = Inr exc"
    by (cases e) (auto split: option.splits)
  then obtain exc where exc: "classify e = Inr exc" ..
  then have inv: "invoke_with_namespace C s = dispatched C ctx exc s1"
    using invoke_failure [OF assms] by simp
  show "\<exists>exc. classify e = Inr exc \<and> is_CommandError exc
       \<and> invoke_with_namespace C s = dispatched C ctx exc s1
       \<and> (\<forall>s2. dispatch_error C ctx exc s1 = (Inr (), s2) \<longrightarrow>
              invoke_with_namespace C s = (Inr None, s2))"
  proof (intro exI [of _ exc] conjI allI impI)
    show "classify e = Inr exc" by (rule exc)
    show "is_CommandError exc" by (rule classify_dispatches_command_error [OF exc])
    show "invoke_with_namespace C s = dispatched C ctx exc s1" by (rule inv)
    fix s2 assume "dispatch_error C ctx exc s1 = (Inr (), s2)"
    then show "invoke_with_namespace C s = (Inr None, s2)"
      by (simp add: inv dispatched_def)
  qed
next
  assume "e = CommandSignatureMismatch"
  then show "invoke_with_namespace C s = (Inl e, s1)"
    using invoke_failure [OF assms] by simp
next
  assume "\<not> is_AppCommandError e \<and> \<not> is_CommandError e"
  then show "invoke_with_namespace C s = (Inl e, s1)"
    using invoke_failure [OF assms] by (simp add: classify_foreign)
qed

theorem invoke_unified_error_dispatched_witness:
  "invoke_with_namespace (failing_invocation (CommandError ''on cooldown'')) []
     = (Inr None, [CommandError ''on cooldown''])
   \<and> invoke_with_namespace (failing_invocation (TypeError ''hook'')) [] = (Inl (TypeError ''hook''), [])"
  using invoke_unified_error_dispatched [OF failing_invocation_context failing_invocation_raises,
      of "CommandError ''on cooldown''"]
    invoke_unified_error_dispatched [OF failing_invocation_context failing_invocation_raises,
      of "TypeError ''hook''"]
  by (simp add: dispatched_def failing_invocation_def)

subsection \<open>Converters\<close>

lemma transform_run_helper:
  "is_converter c \<Longrightarrow>
   transform c ctx v s =
     (case run_helper c ctx v s of
        (Inr x, s') \<Rightarrow> (Inr (Some x), s')
      | (Inl e, s') \<Rightarrow>
          if is_CommandError e then (Inl e, s')
          else (Inl (ConversionError (conv_ref c) e (Some e)), s'))"
  by (auto simp: transform_def run_helper_def is_converter_def returning_def
      split: prod.splits sum.splits)

text \<open>
  C6. The transformer synthesized for a converter executes the conversion helper: what the
  helper returns is returned; a command-level error of the helper propagates unchanged; any
  other exception \<open>e\<close> of the helper becomes a conversion error that carries the converter
  and \<open>e\<close>, with \<open>e\<close> as its cause.
\<close>

theorem transform_wraps:
  "is_converter c \<Longrightarrow>
     (run_helper c ctx v s = (Inr x, s') \<longrightarrow> transform c ctx v s = (Inr (Some x), s'))
   \<and> (run_helper c ctx v s = (Inl e, s') \<and> is_CommandError e \<longrightarrow>
        transform c ctx v s = (Inl e, s'))
   \<and> (run_helper c ctx v s = (Inl e, s') \<and> \<not> is_CommandError e \<longrightarrow>
        transform c ctx v s = (Inl (ConversionError (conv_ref c) e (Some e)), s')
        \<and> cause (ConversionError (conv_ref c) e (Some e)) = Some e)"
  by (simp add: transform_run_helper)

lemma example_converter_is_converter: "is_converter example_converter"
  by (simp add: is_converter_def example_converter_def)

theorem transform_wraps_witness:
  "is_converter example_converter
   \<and> run_helper example_converter () ''x'' 0 = (Inl (ValueError ''x''), 1)
   \<and> transform example_converter () ''x'' 0
       = (Inl (ConversionError 7 (ValueError ''x'') (Some (ValueError ''x''))), 1)
   \<and> transform example_converter () ''42'' 0 = (Inr (Some 42), 1)"
  using transform_wraps [OF example_converter_is_converter, of "()" "''x''" 0 42 1 "ValueError ''x''"]
    transform_wraps [OF example_converter_is_converter, of "()" "''42''" 0 42 1 "ValueError ''x''"]
  by (simp add: run_helper_def example_converter_def is_converter_def)

subsection \<open>Replacing the parameters\<close>

lemma replaced_Cons_other:
  "fst np \<noteq> n \<Longrightarrow> replaced ((n, c) # rest) np = replaced rest np"
  by (simp add: replaced_def)

lemma replaced_not_in:
  "fst np \<notin> fst ` set ps \<Longrightarrow> replaced ps np = snd np"
  by (simp add: replaced_def map_of_eq_None_iff [THEN iffD2])

lemma update_as_map:
  "distinct (map fst params) \<Longrightarrow> n \<in> fst ` set params \<Longrightarrow>
     AList.update n p' params = map (\<lambda>np. if fst np = n then (n, p') else np) params"
proof (induction params)
  case Nil
  then show ?case by simp
next
  case (Cons a params)
  show ?case
  proof (cases "fst a = n")
    case True
    then have "n \<notin> fst ` set params" using Cons.prems(1) by auto
    then have "map (\<lambda>np. if fst np = n then (n, p') else np) params = params"
      by (intro map_idI) auto
    then show ?thesis using True by simp
  next
    case False
    then show ?thesis using Cons by auto
  qed
qed

lemma replace_loop_eq:
  "distinct (map fst ps) \<Longrightarrow> distinct (map fst params) \<Longrightarrow> fst ` set ps \<subseteq> fst ` set params \<Longrightarrow>
     replace_loop ps params = Inr (map (\<lambda>np. (fst np, replaced ps np)) params)"
proof (induction ps arbitrary: params)
  case Nil
  then show ?case by (simp add: replaced_def)
next
  case (Cons a rest)
  obtain n c where a: "a = (n, c)" by (cases a)
  have n_rest: "n \<notin> fst ` set rest" using Cons.prems(1) a by auto
  have n_in: "n \<in> fst ` set params" using Cons.prems(3) a by auto
  have rest_sub: "fst ` set rest \<subseteq> fst ` set params" using Cons.prems(3) by auto
  have d_rest: "distinct (map fst rest)" using Cons.prems(1) by simp
  show ?case
  proof (cases "is_converter c \<and> \<not> has_transformer c")
    case True
    from n_in obtain p where p: "map_of params n = Some p"
      by (metis map_of_eq_None_iff not_Some_eq)
    define p' where "p' = p\<lparr>param_annotation := ConverterTransformer c\<rparr>"
    let ?params' = "AList.update n p' params"
    have up: "?params' = map (\<lambda>np. if fst np = n then (n, p') else np) params"
      by (rule update_as_map [OF Cons.prems(2) n_in])
    have keys: "map fst ?params' = map fst params"
      unfolding up by (induction params) auto
    have "replace_loop rest ?params' = Inr (map (\<lambda>np. (fst np, replaced rest np)) ?params')"
    proof (rule Cons.IH)
      show "distinct (map fst rest)" by (rule d_rest)
      show "distinct (map fst ?params')" using Cons.prems(2) keys by simp
      show "fst ` set rest \<subseteq> fst ` set ?params'" using rest_sub by (auto simp: dom_update)
    qed
    also have "map (\<lambda>np. (fst np, replaced rest np)) ?params'
        = map (\<lambda>np. (fst np, replaced (a # rest) np)) params"
      unfolding up map_map
    proof (rule map_cong [OF refl])
      fix np assume np_in: "np \<in> set params"
      show "((\<lambda>np. (fst np, replaced rest np)) \<circ> (\<lambda>np. if fst np = n then (n, p') else np)) np
          = (fst np, replaced (a # rest) np)"
      proof (cases "fst np = n")
        case eq: True
        have "map_of params (fst np) = Some (snd np)"
          by (rule map_of_is_SomeI [OF Cons.prems(2)]) (simp add: np_in)
        with p eq have "snd np = p" by simp
        then have "replaced (a # rest) np = p'"
          using True eq by (simp add: replaced_def a p'_def)
        moreover have "replaced rest (n, p') = p'"
          using n_rest by (simp add: replaced_not_in)
        ultimately show ?thesis using eq by simp
      next
        case False
        then show ?thesis by (simp add: a replaced_Cons_other)
      qed
    qed
    finally show ?thesis using True p by (simp add: a p'_def)
  next
    case False
    have "replace_loop rest params = Inr (map (\<lambda>np. (fst np, replaced rest np)) params)"
      by (rule Cons.IH [OF d_rest Cons.prems(2) rest_sub])
    also have "map (\<lambda>np. (fst np, replaced rest np)) params
        = map (\<lambda>np. (fst np, replaced (a # rest) np)) params"
    proof (rule map_cong [OF refl])
      fix np assume "np \<in> set params"
      show "(fst np, replaced rest np) = (fst np, replaced (a # rest) np)"
      proof (cases "fst np = n")
        case True
        then show ?thesis using False n_rest by (auto simp: replaced_def a map_of_eq_None_iff [THEN iffD2])
      next
        case False
        then show ?thesis by (simp add: a replaced_Cons_other)
      qed
    qed
    finally show ?thesis using False by (auto simp: a)
  qed
qed

text \<open>
  C7. For a callback whose signature holds every wrapped parameter (both dictionaries have
  unique keys), \<open>replace_parameters\<close> returns the parameters of the signature in their
  order, each one \<open>replaced\<close>: its annotation is the synthesized transformer exactly when
  its converter is a conversion helper that declares no transformer of its own, and it is
  unchanged otherwise.
\<close>

theorem replace_parameters_correct:
  "distinct (map fst parameters) \<Longrightarrow> distinct (map fst sig) \<Longrightarrow>
   fst ` set parameters \<subseteq> fst ` set sig \<Longrightarrow>
     replace_parameters parameters sig = Inr (map (replaced parameters) sig)"
  by (simp add: replace_parameters_def replace_loop_eq comp_def)

lemma example_parameters_ok:
  "distinct (map fst example_parameters)" "distinct (map fst example_signature)"
  "fst ` set example_parameters \<subseteq> fst ` set example_signature"
  by (simp_all add: example_parameters_def example_signature_def)

theorem replace_parameters_correct_witness:
  "replace_parameters example_parameters example_signature =
     Inr [\<lparr>param_name = ''ctx'', param_default = None, param_annotation = Declared ''Context''\<rparr>,
          \<lparr>param_name = ''answer'', param_default = None,
             param_annotation = ConverterTransformer example_converter\<rparr>,
          \<lparr>param_name = ''count'', param_default = Some ''1'', param_annotation = Declared ''int''\<rparr>]"
  using replace_parameters_correct [OF example_parameters_ok]
  by (simp add: replaced_def example_parameters_def example_signature_def is_converter_def
      example_converter_def int_annotation_def)

subsection \<open>Registration in a group\<close>

lemmas example_objects =
  example_group_def example_wrapper_def example_base_def
  base_command.defs wrapper.defs hybrid_group.defs

lemmas registration_defs =
  add_command_def app_add_command_def refuses_duplicates_def remove_command_def
  base_remove_command_def drop_alias_def app_remove_command_def Let_def

text \<open>
  C5. Adding a sub-group to a group that has a parent raises \<^verbatim>\<open>ValueError\<close>, and the group
  (its command mapping and the children of its adapter) and the sub-group are as they were.
\<close>

theorem add_command_too_nested:
  "hybrid_class command = HybridGroupClass \<Longrightarrow> parent_of self \<noteq> None \<Longrightarrow>
     add_command refuses self (Hybrid command) =
       (Inl (ValueError (repr_str (qualified_name command)
               @ '' is too nested, groups can only be nested at most one level'')),
        self, Hybrid command)"
  by (simp add: add_command_def)


theorem add_command_too_nested_witness:
  "add_command refuses_duplicates nested_group (Hybrid example_subgroup) =
     (Inl (ValueError (CHR 0x27 # ''roles'' @ CHR 0x27
             # '' is too nested, groups can only be nested at most one level'')),
      nested_group, Hybrid example_subgroup)"
  using add_command_too_nested [of example_subgroup nested_group refuses_duplicates]
  by (simp add: nested_group_def example_subgroup_def example_objects repr_str_def)

text \<open>Removal.\<close>

lemma fold_drop_alias_None:
  "m n = None \<Longrightarrow> fold (drop_alias command) als m n = None"
  by (induction als arbitrary: m) (auto simp: drop_alias_def split: option.splits)

lemma base_remove_command_removes:
  "m n = Some c \<Longrightarrow> fst (base_remove_command m n) = Some c \<and> snd (base_remove_command m n) n = None"
  by (simp add: base_remove_command_def fold_drop_alias_None)

lemma remove_command_entry:
  "all_commands self n = Some c \<Longrightarrow>
     fst (remove_command self n) = Some c
   \<and> all_commands (snd (remove_command self n)) n = None
   \<and> app_children (snd (remove_command self n)) n = None"
  using base_remove_command_removes [of "all_commands self" n c]
  by (simp add: remove_command_def app_remove_command_def split_beta)

text \<open>
  A successful addition registers the pair: the child is then held under its name on the
  wrapper side and its adapter under the same name on the structured side, and the children
  of the structured-side group stay held under their own names.
\<close>

lemma add_aliases_registers:
  "add_aliases self command als = (Inr (), self') \<Longrightarrow>
     all_commands self (name command) = Some command \<Longrightarrow>
     all_commands self' (name command) = Some command \<and> app_children self' = app_children self"
proof (induction als arbitrary: self)
  case Nil
  then show ?case by simp
next
  case (Cons al rest)
  show ?case
  proof (cases "all_commands self al \<noteq> None")
    case True
    with Cons.prems show ?thesis by simp
  next
    case False
    let ?self1 = "self\<lparr>all_commands := (all_commands self)(al \<mapsto> command)\<rparr>"
    from False Cons.prems(1) have run: "add_aliases ?self1 command rest = (Inr (), self')" by simp
    have "al \<noteq> name command" using False Cons.prems(2) by auto
    then have "all_commands ?self1 (name command) = Some command" using Cons.prems(2) by simp
    from Cons.IH [OF run this] show ?thesis by simp
  qed
qed

lemma add_command_registers:
  assumes "add_command host self (Hybrid c) = (Inr (), self', Hybrid c')"
    and "app_name (app_command c) = name c" and "keyed_by_name self"
  shows "registered self' c' \<and> keyed_by_name self'"
proof -
  define a where "a = (app_command c)\<lparr>app_parent := Some (ref self)\<rparr>"
  define c1 where "c1 = c\<lparr>app_command := a, parent_of := Some (HybridGroupObj (ref self))\<rparr>"
  define self1 where
    "self1 = self\<lparr>app_children := (app_children self)(app_name (app_command c) \<mapsto> a),
                   all_commands := (all_commands self)(name c \<mapsto> c1)\<rparr>"
  have n: "name c1 = name c" by (simp add: c1_def)
  have c': "c' = c1" and run: "add_aliases self1 c1 (aliases c) = (Inr (), self')"
    using assms(1)
    by (auto simp: add_command_def app_add_command_def Let_def self1_def c1_def a_def
        split: if_splits prod.splits option.splits command_obj.splits)
  have "all_commands self1 (name c1) = Some c1" by (simp add: self1_def n)
  from add_aliases_registers [OF run this]
  have 1: "all_commands self' (name c1) = Some c1" and 2: "app_children self' = app_children self1"
    by simp_all
  have "registered self' c1"
    using 1 2 assms(2) by (simp add: registered_def self1_def n) (simp add: c1_def a_def)
  moreover have "keyed_by_name self'"
    using assms(3) 2 by (auto simp: keyed_by_name_def self1_def a_def)
  ultimately show ?thesis by (simp add: c')
qed

lemma HybridGroup_init_keyed:
  "HybridGroup_init refuses b gi dg = Inr g \<Longrightarrow> keyed_by_name g"
  by (auto simp: HybridGroup_init_def host_init_def keyed_by_name_def hybrid_group.defs
      wrapper.defs base_command.defs split: sum.splits option.splits parent_obj.splits)

text \<open>
  C8. For a registered pair (the child held under its own name, its adapter mirrored under
  that name) in a group whose structured-side children are held under their names, removing
  the child's name returns the child, leaves the group's command mapping without the name,
  leaves the structured-side group without a child of that name and without the child's
  adapter under any name, and leaves the other children of the structured-side group alone.
\<close>

theorem remove_command_both_sides:
  "registered self c \<Longrightarrow> keyed_by_name self \<Longrightarrow>
     fst (remove_command self (name c)) = Some c
   \<and> all_commands (snd (remove_command self (name c))) (name c) = None
   \<and> app_children (snd (remove_command self (name c))) (name c) = None
   \<and> (\<forall>k. app_children (snd (remove_command self (name c))) k \<noteq> Some (app_command c))
   \<and> (\<forall>k. k \<noteq> name c \<longrightarrow>
         app_children (snd (remove_command self (name c))) k = app_children self k)"
proof -
  assume reg: "registered self c" and keyed: "keyed_by_name self"
  from reg have c: "all_commands self (name c) = Some c" by (simp add: registered_def)
  have frame: "app_children (snd (remove_command self (name c))) k = app_children self k"
    if "k \<noteq> name c" for k
    using that by (simp add: remove_command_def app_remove_command_def split_beta)
  have gone: "app_children (snd (remove_command self (name c))) k \<noteq> Some (app_command c)" for k
  proof (cases "k = name c")
    case True
    then show ?thesis using remove_command_entry [OF c] by simp
  next
    case False
    show ?thesis
    proof
      assume "app_children (snd (remove_command self (name c))) k = Some (app_command c)"
      then have "app_children self k = Some (app_command c)" using frame [OF False] by simp
      with keyed have "app_name (app_command c) = k" by (simp add: keyed_by_name_def)
      with reg False show False by (simp add: registered_def)
    qed
  qed
  show ?thesis using remove_command_entry [OF c] gone frame by simp
qed

lemma group_with_ban_entries:
  "all_commands group_with_ban ''ban'' = Some registered_ban"
  "map_option app_owner (app_children group_with_ban ''ban'') = Some 2"
  "map_option ref (all_commands group_with_ban ''kick'') = Some 2"
  "app_children group_with_ban ''kick'' = None"
  by (simp_all add: group_with_ban_def registered_ban_def registration_defs example_objects)

lemma ban_added:
  "add_command refuses_duplicates example_group (Hybrid (example_wrapper 2 ''ban'' [''kick'']))
     = (Inr (), group_with_ban, Hybrid registered_ban)"
  by (simp add: prod_eq_iff group_with_ban_def registered_ban_def registration_defs
      example_objects)

lemma group_with_ban_registered:
  "registered group_with_ban registered_ban" "keyed_by_name group_with_ban"
proof -
  have "app_name (app_command (example_wrapper 2 ''ban'' [''kick'']))
      = name (example_wrapper 2 ''ban'' [''kick''])"
    by (simp add: example_objects)
  moreover have "keyed_by_name example_group"
    by (simp add: keyed_by_name_def example_objects)
  ultimately have "registered group_with_ban registered_ban \<and> keyed_by_name group_with_ban"
    by (rule add_command_registers [OF ban_added])
  then show "registered group_with_ban registered_ban" "keyed_by_name group_with_ban"
    by simp_all
qed

theorem remove_command_both_sides_witness:
  "registered group_with_ban registered_ban
   \<and> keyed_by_name group_with_ban
   \<and> name registered_ban = ''ban''
   \<and> app_children group_with_ban ''ban'' = Some (app_command registered_ban)
   \<and> fst (remove_command group_with_ban ''ban'') = Some registered_ban
   \<and> all_commands (snd (remove_command group_with_ban ''ban'')) ''ban'' = None
   \<and> app_children (snd (remove_command group_with_ban ''ban'')) ''ban'' = None
   \<and> (\<forall>k. app_children (snd (remove_command group_with_ban ''ban'')) k
          \<noteq> Some (app_command registered_ban))"
proof -
  have n: "name registered_ban = ''ban''"
    by (simp add: registered_ban_def example_objects)
  have a: "app_children group_with_ban ''ban'' = Some (app_command registered_ban)"
    using group_with_ban_registered(1) by (simp add: registered_def n)
  show ?thesis
    using remove_command_both_sides [OF group_with_ban_registered] group_with_ban_registered n a
    by simp
qed

text \<open>
  The alias conflict rolls back: once the host has accepted the adapter and the name was
  free, the only failure left is an alias conflict, and then the name is registered on
  neither side.
\<close>

lemma add_aliases_conflict:
  "add_aliases self command als = (Inl e, self') \<Longrightarrow> all_commands self (name command) \<noteq> None \<Longrightarrow>
     (\<exists>alias. e = CommandRegistrationError alias True)
   \<and> all_commands self' (name command) = None \<and> app_children self' (name command) = None"
proof (induction als arbitrary: self)
  case Nil
  then show ?case by simp
next
  case (Cons al rest)
  show ?case
  proof (cases "all_commands self al \<noteq> None")
    case True
    from Cons.prems(2) obtain c where c: "all_commands self (name command) = Some c" by auto
    from True Cons.prems(1) have e: "e = CommandRegistrationError al True"
      and s: "self' = snd (remove_command self (name command))" by auto
    show ?thesis using remove_command_entry [OF c] e s by simp
  next
    case False
    let ?self1 = "self\<lparr>all_commands := (all_commands self)(al \<mapsto> command)\<rparr>"
    from False Cons.prems(1) have "add_aliases ?self1 command rest = (Inl e, self')" by simp
    moreover have "all_commands ?self1 (name command) \<noteq> None" using Cons.prems(2) by simp
    ultimately show ?thesis by (rule Cons.IH)
  qed
qed

lemma add_command_alias_conflict_rolls_back:
  assumes "hybrid_class command = HybridCommandClass \<or> parent_of self = None"
    and "refuses (app_children self) (app_command command) = None"
    and "all_commands self (name command) = None"
    and "add_command refuses self (Hybrid command) = (Inl e, self', obj')"
  shows "(\<exists>al. e = CommandRegistrationError al True)
       \<and> all_commands self' (name command) = None \<and> app_children self' (name command) = None"
proof -
  define a where "a = (app_command command)\<lparr>app_parent := Some (ref self)\<rparr>"
  define command1 where
    "command1 = command\<lparr>app_command := a, parent_of := Some (HybridGroupObj (ref self))\<rparr>"
  define self1 where
    "self1 = self\<lparr>app_children := (app_children self)(app_name (app_command command) \<mapsto> a),
                   all_commands := (all_commands self)(name command \<mapsto> command1)\<rparr>"
  have n: "name command1 = name command" by (simp add: command1_def)
  have "add_aliases self1 command1 (aliases command) = (Inl e, self')"
    using assms
    by (auto simp: add_command_def app_add_command_def Let_def self1_def command1_def a_def
        split: if_splits prod.splits)
  moreover have "all_commands self1 (name command1) \<noteq> None"
    by (simp add: self1_def n)
  ultimately show ?thesis
    using add_aliases_conflict [of self1 command1 "aliases command" e self'] by (simp add: n)
qed


text \<open>
  C3, where the code departs from it. The group holds \<open>ban\<close> with the alias \<open>kick\<close>; no
  adapter named \<open>kick\<close> is registered. Adding a command named \<open>kick\<close> raises the
  registration conflict for the name, and afterwards the adapter of the rejected command is
  a child of the structured-side group, while \<open>kick\<close> still denotes \<open>ban\<close> on the
  wrapper side: the mirrored addition was not undone.
\<close>

theorem add_command_duplicate_name_keeps_adapter:
  "app_children group_with_ban ''kick'' = None
   \<and> map_option ref (all_commands group_with_ban ''kick'') = Some 2
   \<and> fst (add_command refuses_duplicates group_with_ban (Hybrid (example_wrapper 3 ''kick'' [])))
       = Inl (CommandRegistrationError ''kick'' False)
   \<and> map_option app_owner
        (app_children
           (fst (snd (add_command refuses_duplicates group_with_ban
                        (Hybrid (example_wrapper 3 ''kick'' []))))) ''kick'') = Some 3
   \<and> map_option ref
        (all_commands
           (fst (snd (add_command refuses_duplicates group_with_ban
                        (Hybrid (example_wrapper 3 ''kick'' []))))) ''kick'') = Some 2"
  by (simp add: group_with_ban_def registration_defs example_objects)

subsection \<open>The pair of a wrapper and its adapter\<close>

lemma add_aliases_frame:
  "wrapper.truncate (snd (add_aliases self command als)) = wrapper.truncate self"
  by (induction als arbitrary: self) (simp_all add: remove_command_def split_beta wrapper.defs)

lemma add_command_group_frame:
  "wrapper.truncate (fst (snd (add_command host self obj))) = wrapper.truncate self"
proof (cases obj)
  case (Plain c)
  then show ?thesis by (simp add: add_command_def)
next
  case (Hybrid command)
  have "wrapper.truncate (snd (add_aliases s1 c1 als)) = wrapper.truncate self"
    if "wrapper.truncate s1 = wrapper.truncate self" for s1 c1 als
    using that by (simp add: add_aliases_frame)
  then show ?thesis
    by (simp add: Hybrid add_command_def app_add_command_def Let_def split_beta wrapper.defs
        split: option.splits)
qed

lemma remove_command_group_frame:
  "wrapper.truncate (snd (remove_command self n)) = wrapper.truncate self"
  by (simp add: remove_command_def split_beta wrapper.defs)

lemma mirrors_truncate: "mirrors w \<longleftrightarrow> mirrors (wrapper.truncate w)"
  by (simp add: mirrors_def mirrored_description_def wrapper.defs)

lemma add_command_child:
  "add_command host self (Hybrid w) = (r, self', Hybrid w') \<Longrightarrow>
     name w' = name w \<and> description w' = description w \<and> short_doc w' = short_doc w
   \<and> cog w' = cog w
   \<and> app_name (app_command w') = app_name (app_command w)
   \<and> app_description (app_command w') = app_description (app_command w)
   \<and> app_binding (app_command w') = app_binding (app_command w)"
  by (auto simp: add_command_def app_add_command_def Let_def split_beta
      split: if_splits option.splits)

lemma HybridCommand_init_fields:
  "HybridCommand_init refuses b ps sig = Inr w \<Longrightarrow>
     name w = name b \<and> description w = description b \<and> short_doc w = short_doc b \<and> cog w = cog b
   \<and> app_name (app_command w) = name b
   \<and> app_description (app_command w) = mirrored_description b
   \<and> app_binding (app_command w) = cog b"
  by (auto simp: HybridCommand_init_def HybridAppCommand_init_def host_init_def
      base_command.defs mirrored_description_def split: sum.splits option.splits)

lemma HybridGroup_init_fields:
  "HybridGroup_init refuses b gi dg = Inr g \<Longrightarrow>
     name g = name b \<and> description g = description b \<and> short_doc g = short_doc b
   \<and> app_name (app_command g) = name b
   \<and> app_description (app_command g) = mirrored_description b"
  by (auto simp: HybridGroup_init_def host_init_def
      base_command.defs mirrored_description_def split: sum.splits option.splits parent_obj.splits)

lemma example_wrapper_constructed:
  "HybridCommand_init accepts (example_base 2 ''ban'' [''kick'']) example_parameters example_signature
     = Inr (example_wrapper 2 ''ban'' [''kick''])"
  by (simp add: HybridCommand_init_def HybridAppCommand_init_def host_init_def accepts_def
      example_base_def example_wrapper_def mirrored_description_def str_or_def
      replace_parameters_def example_parameters_def example_signature_def is_converter_def
      example_converter_def int_annotation_def)

lemma example_group_constructed:
  "HybridGroup_init accepts (example_base 1 ''admin'' []) None None = Inr example_group"
  by (simp add: HybridGroup_init_def host_init_def accepts_def guild_ids_or_def
      example_base_def example_group_def mirrored_description_def str_or_def)

text \<open>
  C9. The adapter created with a hybrid command or a hybrid group has the wrapper's name, and
  as description the wrapper's description, or its short doc, or the placeholder when both
  are empty. Nothing in the module breaks this afterwards: the cog setter, the addition to
  a group (for the child and for the group) and the removal from a group keep it.
\<close>

theorem adapter_mirrors_wrapper:
  "(HybridCommand_init refuses b ps sig = Inr w \<longrightarrow> mirrors w)
   \<and> (HybridGroup_init refuses b gi dg = Inr g \<longrightarrow> mirrors g)
   \<and> (mirrors w' \<longrightarrow> mirrors (set_cog w' v))
   \<and> (mirrors w' \<and> add_command host self (Hybrid w') = (r, self', Hybrid w'') \<longrightarrow> mirrors w'')
   \<and> (mirrors self \<longrightarrow>
        mirrors (fst (snd (add_command host self obj))) \<and> mirrors (snd (remove_command self n)))
   \<and> (mirrors w' \<longleftrightarrow>
        app_name (app_command w') = name w'
        \<and> app_description (app_command w') =
            (if description w' \<noteq> [] then description w'
             else if short_doc w' \<noteq> [] then short_doc w' else placeholder))"
proof (intro conjI impI)
  assume "HybridCommand_init refuses b ps sig = Inr w"
  from HybridCommand_init_fields [OF this] show "mirrors w"
    by (simp add: mirrors_def mirrored_description_def)
next
  assume "HybridGroup_init refuses b gi dg = Inr g"
  from HybridGroup_init_fields [OF this] show "mirrors g"
    by (simp add: mirrors_def mirrored_description_def)
next
  assume "mirrors w'"
  then show "mirrors (set_cog w' v)"
    by (simp add: mirrors_def set_cog_def mirrored_description_def)
next
  assume "mirrors w' \<and> add_command host self (Hybrid w') = (r, self', Hybrid w'')"
  then show "mirrors w''"
    using add_command_child [of host self w' r self' w'']
    by (simp add: mirrors_def mirrored_description_def)
next
  assume "mirrors self"
  then show "mirrors (fst (snd (add_command host self obj)))"
    using mirrors_truncate [of self] mirrors_truncate [of "fst (snd (add_command host self obj))"]
    by (simp add: add_command_group_frame)
next
  assume "mirrors self"
  then show "mirrors (snd (remove_command self n))"
    using mirrors_truncate [of self] mirrors_truncate [of "snd (remove_command self n)"]
    by (simp add: remove_command_group_frame)
next
  show "mirrors w' \<longleftrightarrow>
        app_name (app_command w') = name w'
        \<and> app_description (app_command w') =
            (if description w' \<noteq> [] then description w'
             else if short_doc w' \<noteq> [] then short_doc w' else placeholder)"
    by (simp add: mirrors_def mirrored_description_def str_or_def)
qed


theorem adapter_mirrors_wrapper_witness:
  "HybridCommand_init accepts (example_base 2 ''ban'' [''kick'']) example_parameters example_signature
     = Inr (example_wrapper 2 ''ban'' [''kick''])
   \<and> mirrors (example_wrapper 2 ''ban'' [''kick''])
   \<and> app_name (app_command (example_wrapper 2 ''ban'' [''kick''])) = ''ban''
   \<and> app_description (app_command (example_wrapper 2 ''ban'' [''kick''])) = ''Moderation''
   \<and> HybridGroup_init accepts (example_base 1 ''admin'' []) None None = Inr example_group
   \<and> mirrors example_group"
proof (intro conjI)
  show "HybridCommand_init accepts (example_base 2 ''ban'' [''kick'']) example_parameters
      example_signature = Inr (example_wrapper 2 ''ban'' [''kick''])"
    by (rule example_wrapper_constructed)
  show m: "mirrors (example_wrapper 2 ''ban'' [''kick''])"
    by (rule adapter_mirrors_wrapper [THEN conjunct1, THEN mp, OF example_wrapper_constructed])
  show "app_name (app_command (example_wrapper 2 ''ban'' [''kick''])) = ''ban''"
    using m by (simp add: mirrors_def example_objects)
  show "app_description (app_command (example_wrapper 2 ''ban'' [''kick''])) = ''Moderation''"
    using m by (simp add: mirrors_def mirrored_description_def str_or_def example_objects)
  show "HybridGroup_init accepts (example_base 1 ''admin'' []) None None = Inr example_group"
    by (rule example_group_constructed)
  show "mirrors example_group"
    by (rule adapter_mirrors_wrapper
        [THEN conjunct2, THEN conjunct1, THEN mp, OF example_group_constructed])
qed

lemma foldl_set_cog_bound:
  "bound_together w \<Longrightarrow> bound_together (foldl set_cog w vs)"
  by (induction vs arbitrary: w) (simp_all add: bound_together_def set_cog_def)

text \<open>
  C10. After construction the adapter's binding is the wrapper's cog, and it still is after
  any sequence of assignments to the cog property: the setter stores the value on both
  sides. Adding the command to a group changes neither.
\<close>

theorem cog_and_binding_agree:
  "(HybridCommand_init refuses b ps sig = Inr w \<longrightarrow>
      app_binding (app_command w) = cog w
      \<and> app_binding (app_command (foldl set_cog w vs)) = cog (foldl set_cog w vs))
   \<and> cog (set_cog w' v) = v \<and> app_binding (app_command (set_cog w' v)) = v
   \<and> (add_command host self (Hybrid w') = (r, self', Hybrid w'') \<longrightarrow>
        cog w'' = cog w' \<and> app_binding (app_command w'') = app_binding (app_command w'))"
proof (intro conjI impI)
  assume init: "HybridCommand_init refuses b ps sig = Inr w"
  from HybridCommand_init_fields [OF init]
  show bound: "app_binding (app_command w) = cog w" by simp
  then have "bound_together w" by (simp add: bound_together_def)
  then have "bound_together (foldl set_cog w vs)" by (rule foldl_set_cog_bound)
  then show "app_binding (app_command (foldl set_cog w vs)) = cog (foldl set_cog w vs)"
    by (simp add: bound_together_def)
next
  show "cog (set_cog w' v) = v" by (simp add: set_cog_def)
  show "app_binding (app_command (set_cog w' v)) = v" by (simp add: set_cog_def)
next
  assume "add_command host self (Hybrid w') = (r, self', Hybrid w'')"
  from add_command_child [OF this]
  show "cog w'' = cog w'" "app_binding (app_command w'') = app_binding (app_command w')"
    by simp_all
qed


theorem cog_and_binding_agree_witness:
  "HybridCommand_init accepts (example_base 2 ''ban'' [''kick'']) example_parameters example_signature
     = Inr (example_wrapper 2 ''ban'' [''kick''])
   \<and> app_binding (app_command (example_wrapper 2 ''ban'' [''kick''])) = None
   \<and> cog (foldl set_cog (example_wrapper 2 ''ban'' [''kick'']) [Some 5, None, Some 6]) = Some 6
   \<and> app_binding (app_command (foldl set_cog (example_wrapper 2 ''ban'' [''kick''])
        [Some 5, None, Some 6])) = Some 6"
proof (intro conjI)
  note agree = cog_and_binding_agree [THEN conjunct1, THEN mp, OF example_wrapper_constructed]
  show "HybridCommand_init accepts (example_base 2 ''ban'' [''kick'']) example_parameters
      example_signature = Inr (example_wrapper 2 ''ban'' [''kick''])"
    by (rule example_wrapper_constructed)
  show "app_binding (app_command (example_wrapper 2 ''ban'' [''kick''])) = None"
    using agree [THEN conjunct1] by (simp add: example_objects)
  show c: "cog (foldl set_cog (example_wrapper 2 ''ban'' [''kick'']) [Some 5, None, Some 6]) = Some 6"
    by (simp add: set_cog_def)
  show "app_binding (app_command (foldl set_cog (example_wrapper 2 ''ban'' [''kick''])
        [Some 5, None, Some 6])) = Some 6"
    using agree [THEN conjunct2, of "[Some 5, None, Some 6]"] c by simp
qed

end
